theory Spec2Isabelle
  imports Complex_Main "HOL-Library.AList" "HOL-Library.Product_Lexorder" "HOL-Library.Multiset"
begin

section \<open>The LCOV coverage merger of scripts/merge-coverage.py\<close>

text \<open>
  The script parses LCOV files, merges them by source file with the maximum of every
  counter, writes the merged report and prints a summary. The embedding keeps the
  three functions \<open>parse_lcov_file\<close>, \<open>merge_coverage_files\<close> and
  \<open>write_merged_lcov\<close> and the control flow of \<open>main\<close>.

  Modelling decisions.
  \<^item> A Python \<open>dict\<close> keeps insertion order and has unique keys: it is an association
    list. \<open>d[k] = v\<close> is \<open>AList.update k v d\<close> (replace in place, else append at the
    end), \<open>d.get(k, 0)\<close> is \<open>dict_get d k 0\<close>, \<open>d.items()\<close> is the list itself.
  \<^item> Python integers are unbounded: \<open>int\<close>.
  \<^item> A text file is the list of the lines its iterator yields. A character is a
    code point below 256 (Isabelle's \<open>char\<close>); code points from 256 on are outside the
    model.
  \<^item> Every \<open>raise\<close> is a value \<open>Inl e\<close> of a sum type.
  \<^item> The file that is written is the list of the lines passed to \<open>f.write\<close>, each
    without its final newline.
\<close>

subsection \<open>Python strings\<close>

text \<open>
  The characters that \<open>str.strip\<close> removes (\<open>str.isspace\<close>), among the code points
  below 256.
\<close>

definition is_space :: "char \<Rightarrow> bool" where
  "is_space c \<longleftrightarrow> c \<in> set [CHR 0x09, CHR 0x0A, CHR 0x0B, CHR 0x0C, CHR 0x0D,
                           CHR 0x1C, CHR 0x1D, CHR 0x1E, CHR 0x1F, CHR 0x20,
                           CHR 0x85, CHR 0xA0]"

text \<open>\<open>s.strip()\<close>\<close>

definition strip :: "string \<Rightarrow> string" where
  "strip s = rev (dropWhile is_space (rev (dropWhile is_space s)))"

text \<open>\<open>s.startswith(p)\<close>\<close>

definition startswith :: "string \<Rightarrow> string \<Rightarrow> bool" where
  "startswith s p \<longleftrightarrow> take (length p) s = p"

text \<open>\<open>s.split(',')\<close>: the fields between the commas, at least one.\<close>

fun split_comma :: "string \<Rightarrow> string list" where
  "split_comma [] = [[]]"
| "split_comma (c # cs) =
     (if c = CHR '','' then [] # split_comma cs
      else (case split_comma cs of
              [] \<Rightarrow> [[c]]
            | p # ps \<Rightarrow> (c # p) # ps))"

text \<open>\<open>s.split(',', 1)\<close>: split at the first comma only.\<close>

definition split_comma1 :: "string \<Rightarrow> string list" where
  "split_comma1 s =
     (if CHR '','' \<in> set s
      then [takeWhile (\<lambda>c. c \<noteq> CHR '','') s, tl (dropWhile (\<lambda>c. c \<noteq> CHR '','') s)]
      else [s])"

subsection \<open>Exceptions\<close>

datatype py_error =
    ValueError string    \<comment> \<open>\<open>int(s)\<close> on a string that is no integer literal\<close>
  | KeyError string      \<comment> \<open>\<open>d[k]\<close> on a missing key\<close>
  | OSError              \<comment> \<open>any failure of the file system\<close>
  | ZeroDivisionError

subsection \<open>\<open>int(s)\<close> and \<open>str(n)\<close>\<close>

definition is_digit :: "char \<Rightarrow> bool" where
  "is_digit c \<longleftrightarrow> c \<in> set ''0123456789''"

definition digit_val :: "char \<Rightarrow> nat" where
  "digit_val c = of_char c - 48"

text \<open>
  The digits of a literal, where single underscores may stand between two digits.
  \<open>prev\<close> says that the character before was a digit.
\<close>

fun parse_digits :: "nat \<Rightarrow> bool \<Rightarrow> string \<Rightarrow> nat option" where
  "parse_digits acc prev [] = (if prev then Some acc else None)"
| "parse_digits acc prev (c # cs) =
     (if is_digit c then parse_digits (10 * acc + digit_val c) True cs
      else if c = CHR ''_'' \<and> prev then parse_digits acc False cs
      else None)"

text \<open>
  The characters that \<open>int\<close> skips around the literal: the white space of C and the
  two spaces above 127. The separators \<open>0x1C\<close> to \<open>0x1F\<close>, which \<open>str.strip\<close> removes,
  are no white space for \<open>int\<close>.
\<close>

definition is_int_space :: "char \<Rightarrow> bool" where
  "is_int_space c \<longleftrightarrow> c \<in> set [CHR 0x09, CHR 0x0A, CHR 0x0B, CHR 0x0C, CHR 0x0D, CHR 0x20,
                               CHR 0x85, CHR 0xA0]"

definition int_strip :: "string \<Rightarrow> string" where
  "int_strip s = rev (dropWhile is_int_space (rev (dropWhile is_int_space s)))"

text \<open>
  \<open>sys.int_max_str_digits\<close>, as the interpreter sets it: a literal with more digits
  (underscores and the sign do not count) raises \<open>ValueError\<close>.
\<close>

definition int_max_str_digits :: int where
  "int_max_str_digits = 4300"

definition py_int :: "string \<Rightarrow> py_error + int" where
  "py_int s =
     (case int_strip s of
        [] \<Rightarrow> Inl (ValueError s)
      | c # cs \<Rightarrow>
          (let body = (if c = CHR ''-'' \<or> c = CHR ''+'' then cs else c # cs) in
           case parse_digits 0 False body of
             None \<Rightarrow> Inl (ValueError s)
           | Some n \<Rightarrow>
               if int (length (filter is_digit body)) > int_max_str_digits
               then Inl (ValueError s)
               else if c = CHR ''-'' then Inr (- int n)
               else Inr (int n)))"

definition digit_char :: "nat \<Rightarrow> char" where
  "digit_char d = ''0123456789'' ! d"

fun show_nat :: "nat \<Rightarrow> string" where
  "show_nat n = (if n < 10 then [digit_char n] else show_nat (n div 10) @ [digit_char (n mod 10)])"

declare show_nat.simps [simp del]

definition show_int :: "int \<Rightarrow> string" where
  "show_int i = (if i < 0 then CHR ''-'' # show_nat (nat (- i)) else show_nat (nat i))"

subsection \<open>Dictionaries\<close>

type_synonym ('k, 'v) dict = "('k \<times> 'v) list"

definition keys :: "('k, 'v) dict \<Rightarrow> 'k set" where
  "keys d = fst ` set d"

text \<open>\<open>d.get(k, dflt)\<close>\<close>

definition dict_get :: "('k, 'v) dict \<Rightarrow> 'k \<Rightarrow> 'v \<Rightarrow> 'v" where
  "dict_get d k dflt = (case map_of d k of None \<Rightarrow> dflt | Some v \<Rightarrow> v)"

text \<open>\<open>d[k] = max(d.get(k, 0), cnt)\<close>, the statement all three counters use.\<close>

definition store_max :: "('k, int) dict \<Rightarrow> 'k \<Rightarrow> int \<Rightarrow> ('k, int) dict" where
  "store_max d k cnt = AList.update k (max (dict_get d k 0) cnt) d"

subsection \<open>The coverage record of one source file\<close>

text \<open>
  The dictionary with the keys \<open>'functions'\<close>, \<open>'lines'\<close>, \<open>'branches'\<close>,
  \<open>'function_data'\<close> and \<open>'branch_data'\<close>. The field of the key \<open>'functions'\<close> is
  \<open>functions_tab\<close>, since the plain word is reserved in Isabelle; for the same reason the
  variable \<open>count\<close> of the source is \<open>cnt\<close>.
\<close>

record coverage =
  functions_tab :: "(string, int) dict"
  lines :: "(int, int) dict"
  branches :: "(string, int) dict"
  function_data :: "string list"
  branch_data :: "string list"

type_synonym coverage_data = "(string, coverage) dict"

definition empty_coverage :: coverage where
  "empty_coverage =
     \<lparr>functions_tab = [], lines = [], branches = [], function_data = [], branch_data = []\<rparr>"

subsection \<open>\<open>parse_lcov_file\<close>\<close>

text \<open>
  The state of the loop over the lines: \<open>coverage_data\<close> and \<open>current_file\<close>
  (\<open>None\<close> at the start). \<open>and current_file\<close> tests the truth value of the variable:
  \<open>None\<close> and the empty string are false.
\<close>

type_synonym parse_state = "coverage_data \<times> string option"

definition truthy :: "string option \<Rightarrow> bool" where
  "truthy cur = (case cur of None \<Rightarrow> False | Some s \<Rightarrow> s \<noteq> [])"

text \<open>
  \<open>coverage_data[current_file][...] = ...\<close>: the record of the current file is looked
  up (a missing key raises) and changed in place.
\<close>

definition on_current :: "parse_state \<Rightarrow> (coverage \<Rightarrow> coverage) \<Rightarrow> py_error + parse_state" where
  "on_current st f =
     (case snd st of
        None \<Rightarrow> Inl (KeyError [])
      | Some cf \<Rightarrow>
          (case map_of (fst st) cf of
             None \<Rightarrow> Inl (KeyError cf)
           | Some r \<Rightarrow> Inr (AList.update cf (f r) (fst st), Some cf)))"

text \<open>The body of the loop, for one line of the file.\<close>

definition parse_line :: "parse_state \<Rightarrow> string \<Rightarrow> py_error + parse_state" where
  "parse_line st raw =
     (let line = strip raw in
      if startswith line ''SF:'' then
        (let current_file = drop 3 line in
         if current_file \<notin> keys (fst st)
         then Inr (fst st @ [(current_file, empty_coverage)], Some current_file)
         else Inr (fst st, Some current_file))
      else if startswith line ''FN:'' \<and> truthy (snd st) then
        on_current st (\<lambda>r. r\<lparr>function_data := function_data r @ [line]\<rparr>)
      else if startswith line ''FNDA:'' \<and> truthy (snd st) then
        (let parts = split_comma1 line in
         if length parts = 2 then
           (case py_int (drop 5 (parts ! 0)) of
              Inl e \<Rightarrow> Inl e
            | Inr cnt \<Rightarrow>
                on_current st (\<lambda>r. r\<lparr>functions_tab := store_max (functions_tab r) (parts ! 1) cnt\<rparr>))
         else Inr st)
      else if startswith line ''DA:'' \<and> truthy (snd st) then
        (let parts = split_comma line in
         if length parts = 2 then
           (case py_int (drop 3 (parts ! 0)) of
              Inl e \<Rightarrow> Inl e
            | Inr line_num \<Rightarrow>
                (case py_int (parts ! 1) of
                   Inl e \<Rightarrow> Inl e
                 | Inr cnt \<Rightarrow>
                     on_current st (\<lambda>r. r\<lparr>lines := store_max (lines r) line_num cnt\<rparr>)))
         else Inr st)
      else if startswith line ''BRDA:'' \<and> truthy (snd st) then
        (case on_current st (\<lambda>r. r\<lparr>branch_data := branch_data r @ [line]\<rparr>) of
           Inl e \<Rightarrow> Inl e
         | Inr st1 \<Rightarrow>
             (let parts = split_comma line in
              if length parts = 4 then
                (let key = drop 5 (parts ! 0) @ '':'' @ parts ! 1 @ '':'' @ parts ! 2 in
                 case (if parts ! 3 = ''-'' then Inr 0 else py_int (parts ! 3)) of
                   Inl e \<Rightarrow> Inl e
                 | Inr cnt \<Rightarrow>
                     on_current st1 (\<lambda>r. r\<lparr>branches := store_max (branches r) key cnt\<rparr>))
              else Inr st1))
      else Inr st)"

text \<open>The loop: the first exception leaves it.\<close>

fun parse_lines :: "parse_state \<Rightarrow> string list \<Rightarrow> py_error + parse_state" where
  "parse_lines st [] = Inr st"
| "parse_lines st (l # ls) =
     (case parse_line st l of Inl e \<Rightarrow> Inl e | Inr st' \<Rightarrow> parse_lines st' ls)"

text \<open>
  What a path names: nothing (\<open>os.path.exists\<close> is false), something that cannot be
  opened or read as text, or a text file with its lines.
\<close>

datatype file_status = Missing | Unreadable | Readable "string list"

type_synonym filesystem = "string \<Rightarrow> file_status"

text \<open>What the script prints.\<close>

datatype message =
    Merging nat
  | Warning_not_found string
  | Processing string
  | Error_parsing string py_error
  | No_coverage_data
  | Summary_header
  | Summary_files nat
  | Summary_lines nat nat string
  | Summary_functions nat nat string
  | Summary_branches nat nat string
  | Summary_output string

text \<open>
  \<open>parse_lcov_file\<close> returns the mapping and what it printed: every exception is
  caught, reported, and gives the empty mapping.
\<close>

definition parse_lcov_file :: "filesystem \<Rightarrow> string \<Rightarrow> coverage_data \<times> message list" where
  "parse_lcov_file fs file_path =
     (case fs file_path of
        Missing \<Rightarrow> ([], [Error_parsing file_path OSError])
      | Unreadable \<Rightarrow> ([], [Error_parsing file_path OSError])
      | Readable ls \<Rightarrow>
          (case parse_lines ([], None) ls of
             Inl e \<Rightarrow> ([], [Error_parsing file_path e])
           | Inr st \<Rightarrow> (fst st, [])))"

subsection \<open>\<open>merge_coverage_files\<close>\<close>

text \<open>One of the three loops over the items of a counter dictionary of the input.\<close>

fun merge_counts :: "('k, int) dict \<Rightarrow> ('k, int) dict \<Rightarrow> ('k, int) dict" where
  "merge_counts acc [] = acc"
| "merge_counts acc (item # rest) = merge_counts (store_max acc (fst item) (snd item)) rest"

text \<open>
  The body of the loop over \<open>file_data.items()\<close>: a new source file is entered with
  empty counters and a copy of the definition lines, then the three counters are merged
  into \<open>merged_data[source_file]\<close>, which exists by then.
\<close>

definition merge_source :: "coverage_data \<Rightarrow> string \<Rightarrow> coverage \<Rightarrow> coverage_data" where
  "merge_source merged_data source_file data =
     (let m0 = (if source_file \<notin> keys merged_data
                then merged_data @
                       [(source_file,
                         \<lparr>functions_tab = [], lines = [], branches = [],
                          function_data = function_data data,
                          branch_data = branch_data data\<rparr>)]
                else merged_data);
          m1 = AList.map_entry source_file
                 (\<lambda>r. r\<lparr>functions_tab := merge_counts (functions_tab r) (functions_tab data)\<rparr>) m0;
          m2 = AList.map_entry source_file
                 (\<lambda>r. r\<lparr>lines := merge_counts (lines r) (lines data)\<rparr>) m1
      in AList.map_entry source_file
           (\<lambda>r. r\<lparr>branches := merge_counts (branches r) (branches data)\<rparr>) m2)"

fun merge_file_data :: "coverage_data \<Rightarrow> coverage_data \<Rightarrow> coverage_data" where
  "merge_file_data merged_data [] = merged_data"
| "merge_file_data merged_data (item # rest) =
     merge_file_data (merge_source merged_data (fst item) (snd item)) rest"

text \<open>The loop over the paths, with what is printed.\<close>

fun merge_loop ::
  "filesystem \<Rightarrow> coverage_data \<times> message list \<Rightarrow> string list \<Rightarrow> coverage_data \<times> message list"
where
  "merge_loop fs acc [] = acc"
| "merge_loop fs acc (file_path # rest) =
     (if fs file_path = Missing
      then merge_loop fs (fst acc, snd acc @ [Warning_not_found file_path]) rest
      else
        (let parsed = parse_lcov_file fs file_path
         in merge_loop fs
              (merge_file_data (fst acc) (fst parsed),
               snd acc @ [Processing file_path] @ snd parsed) rest))"

definition merge_coverage_files :: "filesystem \<Rightarrow> string list \<Rightarrow> coverage_data \<times> message list" where
  "merge_coverage_files fs file_paths = merge_loop fs ([], []) file_paths"

subsection \<open>\<open>write_merged_lcov\<close>\<close>

text \<open>
  The loops that write the definition lines: \<open>f\<close> is the file written so far, \<open>seen\<close>
  the set of the lines already written.
\<close>

fun write_dedup :: "string list \<Rightarrow> string set \<Rightarrow> string list \<Rightarrow> string list" where
  "write_dedup f seen [] = f"
| "write_dedup f seen (l # ls) =
     (if l \<notin> seen then write_dedup (f @ [l]) (insert l seen) ls
      else write_dedup f seen ls)"

text \<open>\<open>sum(1 for count in d.values() if count > 0)\<close>\<close>

definition count_covered :: "('k, int) dict \<Rightarrow> nat" where
  "count_covered d = length (filter (\<lambda>cnt. cnt > 0) (map snd d))"

definition write_fnda :: "string list \<Rightarrow> (string, int) dict \<Rightarrow> string list" where
  "write_fnda f d =
     fold (\<lambda>item f. f @ [''FNDA:'' @ show_int (snd item) @ '','' @ fst item]) d f"

text \<open>\<open>sorted(data['lines'].items())\<close> orders the pairs lexicographically.\<close>

definition write_da :: "string list \<Rightarrow> (int, int) dict \<Rightarrow> string list" where
  "write_da f d =
     fold (\<lambda>item f. f @ [''DA:'' @ show_int (fst item) @ '','' @ show_int (snd item)]) (sort d) f"

text \<open>The body of the loop over \<open>merged_data.items()\<close>.\<close>

definition write_record :: "string list \<Rightarrow> string \<Rightarrow> coverage \<Rightarrow> string list" where
  "write_record f0 source_file data =
     (let f1 = f0 @ [''TN:''];
          f2 = f1 @ [''SF:'' @ source_file];
          f3 = write_dedup f2 {} (function_data data);
          f4 = write_fnda f3 (functions_tab data);
          total_funcs = length (functions_tab data);
          covered_funcs = count_covered (functions_tab data);
          f5 = f4 @ [''FNF:'' @ show_int (int total_funcs)];
          f6 = f5 @ [''FNH:'' @ show_int (int covered_funcs)];
          f7 = write_dedup f6 {} (branch_data data);
          total_branches = length (branches data);
          covered_branches = count_covered (branches data);
          f8 = f7 @ [''BRF:'' @ show_int (int total_branches)];
          f9 = f8 @ [''BRH:'' @ show_int (int covered_branches)];
          f10 = write_da f9 (lines data);
          total_lines = length (lines data);
          covered_lines = count_covered (lines data);
          f11 = f10 @ [''LF:'' @ show_int (int total_lines)];
          f12 = f11 @ [''LH:'' @ show_int (int covered_lines)]
      in f12 @ [''end_of_record''])"

fun write_records :: "string list \<Rightarrow> coverage_data \<Rightarrow> string list" where
  "write_records f [] = f"
| "write_records f (item # rest) = write_records (write_record f (fst item) (snd item)) rest"

text \<open>\<open>os.path.dirname\<close> (POSIX).\<close>

definition dirname :: "string \<Rightarrow> string" where
  "dirname p =
     (let head = rev (dropWhile (\<lambda>c. c \<noteq> CHR ''/'') (rev p))
      in if head \<noteq> [] \<and> (\<exists>c \<in> set head. c \<noteq> CHR ''/'')
         then rev (dropWhile (\<lambda>c. c = CHR ''/'') (rev head))
         else head)"

text \<open>
  The world outside: the files that can be read, the directories \<open>os.makedirs\<close> can
  create (or finds), the paths \<open>open(..., 'w')\<close> can open.
\<close>

record os_env =
  file_system :: filesystem
  makedirs_ok :: "string \<Rightarrow> bool"
  open_w_ok :: "string \<Rightarrow> bool"

text \<open>
  \<open>os.makedirs(d, exist_ok=True)\<close>: the empty path cannot be created (\<open>mkdir\<close> of the
  empty path fails and Python raises \<open>FileNotFoundError\<close>); for any other path the
  environment decides.
\<close>

definition os_makedirs :: "os_env \<Rightarrow> string \<Rightarrow> py_error + unit" where
  "os_makedirs env d =
     (if d = [] then Inl OSError
      else if makedirs_ok env d then Inr ()
      else Inl OSError)"

text \<open>The result is the file that was written: its path and its lines.\<close>

definition write_merged_lcov ::
  "os_env \<Rightarrow> coverage_data \<Rightarrow> string \<Rightarrow> py_error + (string \<times> string list)"
where
  "write_merged_lcov env merged_data output_path =
     (case os_makedirs env (dirname output_path) of
        Inl e \<Rightarrow> Inl e
      | Inr _ \<Rightarrow>
          (if \<not> open_w_ok env output_path then Inl OSError
           else Inr (output_path, write_records [] merged_data)))"

subsection \<open>\<open>main\<close>\<close>

text \<open>
  \<open>a / b\<close> on integers. The value is kept as the exact quotient; the rounding to a
  binary floating-point number is done where the value is printed.
\<close>

definition py_truediv :: "nat \<Rightarrow> nat \<Rightarrow> py_error + rat" where
  "py_truediv a b = (if b = 0 then Inl ZeroDivisionError else Inr (of_nat a / of_nat b))"

text \<open>\<open>(covered / total * 100) if total > 0 else 0\<close>\<close>

definition percentage :: "nat \<Rightarrow> nat \<Rightarrow> py_error + rat" where
  "percentage covered tot =
     (if tot > 0
      then (case py_truediv covered tot of Inl e \<Rightarrow> Inl e | Inr q \<Rightarrow> Inr (q * 100))
      else Inr 0)"

text \<open>
  Binary floating point with 53 bits, rounding to nearest, ties to even (the range of
  the exponent is not modelled: a ratio of two counts times 100 is far from its ends).
\<close>

text \<open>\<open>n.bit_length()\<close> for \<open>n \<ge> 0\<close>\<close>

function bit_length :: "int \<Rightarrow> nat" where
  "bit_length n = (if n \<le> 0 then 0 else Suc (bit_length (n div 2)))"
  by pat_completeness auto
termination
  by (relation "measure nat") auto

declare bit_length.simps [simp del]

definition pow2 :: "int \<Rightarrow> rat" where
  "pow2 k = (if 0 \<le> k then 2 ^ nat k else 1 / 2 ^ nat (- k))"

text \<open>The exponent \<open>e\<close> with \<open>2 ^ e \<le> x < 2 ^ (e + 1)\<close>, for a positive \<open>x\<close>.\<close>

definition floor_log2 :: "rat \<Rightarrow> int" where
  "floor_log2 x =
     (let k = int (bit_length (fst (quotient_of x)))
              - int (bit_length (snd (quotient_of x)))
      in if pow2 k \<le> x then k else k - 1)"

definition round_half_even :: "rat \<Rightarrow> int" where
  "round_half_even x =
     (let fl = \<lfloor>x\<rfloor>; r = x - of_int fl
      in if r < 1 / 2 then fl else if r > 1 / 2 then fl + 1
         else if even fl then fl else fl + 1)"

definition round_double :: "rat \<Rightarrow> rat" where
  "round_double x =
     (if x = 0 then 0
      else
        (let ulp = pow2 (floor_log2 \<bar>x\<bar> - 52)
         in sgn x * of_int (round_half_even (\<bar>x\<bar> / ulp)) * ulp))"

text \<open>
  \<open>f"{x:.2f}"\<close> for \<open>x = covered / total * 100\<close>. Python divides and multiplies in
  floating point and prints the decimal number with two places that is nearest to the
  result, ties to even: \<open>x / 100\<close> is the exact quotient of the two counts, which is
  rounded, multiplied by 100 and rounded again.
\<close>

definition format_2f :: "rat \<Rightarrow> string" where
  "format_2f x =
     (let z = round_double (round_double (x / 100) * 100);
          n = nat (round_half_even (\<bar>z\<bar> * 100))
      in (if z < 0 then ''-'' else []) @ show_nat (n div 100) @ ''.'' @
         [digit_char (n mod 100 div 10), digit_char (n mod 10)])"

definition total_of :: "(coverage \<Rightarrow> ('k, int) dict) \<Rightarrow> coverage_data \<Rightarrow> nat" where
  "total_of fld merged_data = sum_list (map (\<lambda>item. length (fld (snd item))) merged_data)"

definition covered_of :: "(coverage \<Rightarrow> ('k, int) dict) \<Rightarrow> coverage_data \<Rightarrow> nat" where
  "covered_of fld merged_data = sum_list (map (\<lambda>item. count_covered (fld (snd item))) merged_data)"

text \<open>The summary that \<open>main\<close> prints after the file is written.\<close>

definition print_summary :: "coverage_data \<Rightarrow> string \<Rightarrow> py_error + message list" where
  "print_summary merged_data output =
     (let total_files = length merged_data;
          total_lines = total_of lines merged_data;
          covered_lines = covered_of lines merged_data;
          total_functions = total_of functions_tab merged_data;
          covered_functions = covered_of functions_tab merged_data;
          total_branches = total_of branches merged_data;
          covered_branches = covered_of branches merged_data
      in case percentage covered_lines total_lines of
           Inl e \<Rightarrow> Inl e
         | Inr coverage_pct \<Rightarrow>
             (case percentage covered_functions total_functions of
                Inl e \<Rightarrow> Inl e
              | Inr function_pct \<Rightarrow>
                  (case percentage covered_branches total_branches of
                     Inl e \<Rightarrow> Inl e
                   | Inr branch_pct \<Rightarrow>
                       Inr [Summary_header,
                            Summary_files total_files,
                            Summary_lines covered_lines total_lines (format_2f coverage_pct),
                            Summary_functions covered_functions total_functions
                              (format_2f function_pct),
                            Summary_branches covered_branches total_branches
                              (format_2f branch_pct),
                            Summary_output output])))"

text \<open>How the process ends, what it printed and the file it wrote, if any.\<close>

datatype outcome = Exit nat | Uncaught py_error

record run =
  stdout :: "message list"
  written :: "(string \<times> string list) option"
  outcome :: outcome

definition main :: "os_env \<Rightarrow> string list \<Rightarrow> string \<Rightarrow> run" where
  "main env files output =
     (let merged = merge_coverage_files (file_system env) files;
          merged_data = fst merged;
          out = Merging (length files) # snd merged
      in if merged_data = []
         then \<lparr>stdout = out @ [No_coverage_data], written = None, outcome = Exit 1\<rparr>
         else
           (case write_merged_lcov env merged_data output of
              Inl e \<Rightarrow> \<lparr>stdout = out, written = None, outcome = Uncaught e\<rparr>
            | Inr w \<Rightarrow>
                (case print_summary merged_data output of
                   Inl e \<Rightarrow> \<lparr>stdout = out, written = Some w, outcome = Uncaught e\<rparr>
                 | Inr msgs \<Rightarrow> \<lparr>stdout = out @ msgs, written = Some w, outcome = Exit 0\<rparr>)))"

subsection \<open>Reference notions for the properties\<close>

text \<open>
  The count stored for a key of one counter (\<open>fld\<close> is \<open>functions_tab\<close>, \<open>lines\<close> or
  \<open>branches\<close>) of a source file in a mapping, if there is one; the mappings that
  \<open>merge_coverage_files\<close> obtains from \<open>parse_lcov_file\<close>, in the order of the paths;
  the counts these mappings hold for a key; and their maximum.
\<close>

definition count_at :: "(coverage \<Rightarrow> ('k, int) dict) \<Rightarrow> coverage_data \<Rightarrow> string \<Rightarrow> 'k \<Rightarrow> int option" where
  "count_at fld d source_file k =
     (case map_of d source_file of None \<Rightarrow> None | Some r \<Rightarrow> map_of (fld r) k)"

definition parsed_inputs :: "filesystem \<Rightarrow> string list \<Rightarrow> coverage_data list" where
  "parsed_inputs fs file_paths =
     map (\<lambda>p. fst (parse_lcov_file fs p)) (filter (\<lambda>p. fs p \<noteq> Missing) file_paths)"

definition observed ::
  "(coverage \<Rightarrow> ('k, int) dict) \<Rightarrow> coverage_data list \<Rightarrow> string \<Rightarrow> 'k \<Rightarrow> int list" where
  "observed fld inputs source_file k = List.map_filter (\<lambda>d. count_at fld d source_file k) inputs"

definition max_observed :: "int list \<Rightarrow> int option" where
  "max_observed cs = (if cs = [] then None else Some (Max (set cs)))"

text \<open>
  What holds of every mapping the parser returns: keys are unique, counts are not
  negative.
\<close>

definition nonneg_dict :: "('k, int) dict \<Rightarrow> bool" where
  "nonneg_dict d \<longleftrightarrow> distinct (map fst d) \<and> (\<forall>cnt \<in> snd ` set d. 0 \<le> cnt)"

definition wf_coverage :: "coverage \<Rightarrow> bool" where
  "wf_coverage r \<longleftrightarrow>
     nonneg_dict (functions_tab r) \<and> nonneg_dict (lines r) \<and> nonneg_dict (branches r)"

definition wf_data :: "coverage_data \<Rightarrow> bool" where
  "wf_data d \<longleftrightarrow> distinct (map fst d) \<and> (\<forall>r \<in> snd ` set d. wf_coverage r)"


text \<open>
  Deduplication in first-seen order: every element once, at the place where it
  occurs first.
\<close>

fun first_seen :: "'a list \<Rightarrow> 'a list" where
  "first_seen [] = []"
| "first_seen (x # xs) = x # first_seen (filter (\<lambda>y. y \<noteq> x) xs)"

text \<open>
  The block of one source file as the specification lists it: the empty test name,
  the source file, the deduplicated function definitions, one \<open>FNDA\<close> line per
  function count, \<open>FNF\<close> and \<open>FNH\<close>, the deduplicated branch definitions, \<open>BRF\<close> and
  \<open>BRH\<close>, one \<open>DA\<close> line per line count in ascending order, \<open>LF\<close> and \<open>LH\<close>, and the
  end marker; each summary is the number of keys of the merged counter, or the number
  of its counts above zero.
\<close>

definition lcov_block :: "string \<Rightarrow> coverage \<Rightarrow> string list" where
  "lcov_block source_file data =
     [''TN:'', ''SF:'' @ source_file]
     @ first_seen (function_data data)
     @ map (\<lambda>item. ''FNDA:'' @ show_int (snd item) @ '','' @ fst item) (functions_tab data)
     @ [''FNF:'' @ show_int (int (length (functions_tab data))),
        ''FNH:'' @ show_int (int (count_covered (functions_tab data)))]
     @ first_seen (branch_data data)
     @ [''BRF:'' @ show_int (int (length (branches data))),
        ''BRH:'' @ show_int (int (count_covered (branches data)))]
     @ map (\<lambda>item. ''DA:'' @ show_int (fst item) @ '','' @ show_int (snd item))
         (sort (lines data))
     @ [''LF:'' @ show_int (int (length (lines data))),
        ''LH:'' @ show_int (int (count_covered (lines data))),
        ''end_of_record'']"

text \<open>
  What holds of the definition lines the parser stores: the function definitions
  start with \<open>FN:\<close>, the branch definitions with \<open>BRDA:\<close>.
\<close>

definition tagged :: "coverage \<Rightarrow> bool" where
  "tagged r \<longleftrightarrow>
     (\<forall>l \<in> set (function_data r). startswith l ''FN:'')
     \<and> (\<forall>l \<in> set (branch_data r). startswith l ''BRDA:'')"

definition all_tagged :: "coverage_data \<Rightarrow> bool" where
  "all_tagged d \<longleftrightarrow> (\<forall>r \<in> snd ` set d. tagged r)"

text \<open>The two definition lists a mapping holds for a source file.\<close>

definition defs_of :: "coverage_data \<Rightarrow> string \<Rightarrow> (string list \<times> string list) option" where
  "defs_of d source_file =
     map_option (\<lambda>r. (function_data r, branch_data r)) (map_of d source_file)"

section \<open>Properties\<close>

subsection \<open>The coverage ratios of the summary\<close>

lemma percentage_eq:
  "percentage covered tot =
     (if tot = 0 then Inr 0 else Inr (of_nat covered / of_nat tot * 100))"
  by (simp add: percentage_def py_truediv_def)

lemma format_2f_zero: "format_2f 0 = ''0.00''"
  by (simp add: format_2f_def round_double_def round_half_even_def show_nat.simps
        digit_char_def)

text \<open>
  Claim C8. A ratio whose total is zero is \<open>0\<close>, printed as \<open>0.00\<close>; the division
  is reached only with a positive total, so computing a ratio never raises
  \<open>ZeroDivisionError\<close>, and the summary is always printed, with \<open>0.00\<close> for each of
  the three kinds whose merged total is zero.
\<close>

theorem zero_total_ratio:
  "percentage covered tot =
     (if tot = 0 then Inr 0 else Inr (of_nat covered / of_nat tot * 100))
   \<and> format_2f 0 = ''0.00''
   \<and> (\<exists>msgs. print_summary m out = Inr msgs
        \<and> (total_of lines m = 0 \<longrightarrow>
              Summary_lines (covered_of lines m) 0 ''0.00'' \<in> set msgs)
        \<and> (total_of functions_tab m = 0 \<longrightarrow>
              Summary_functions (covered_of functions_tab m) 0 ''0.00'' \<in> set msgs)
        \<and> (total_of branches m = 0 \<longrightarrow>
              Summary_branches (covered_of branches m) 0 ''0.00'' \<in> set msgs))"
  by (simp add: percentage_eq format_2f_zero print_summary_def Let_def)

theorem zero_total_ratio_witness:
  "total_of lines [(''x.c'', empty_coverage)] = 0
   \<and> total_of functions_tab [(''x.c'', empty_coverage)] = 0
   \<and> total_of branches [(''x.c'', empty_coverage)] = 0
   \<and> (\<exists>msgs. print_summary [(''x.c'', empty_coverage)] ''out/lcov.info'' = Inr msgs
        \<and> Summary_lines 0 0 ''0.00'' \<in> set msgs
        \<and> Summary_functions 0 0 ''0.00'' \<in> set msgs
        \<and> Summary_branches 0 0 ''0.00'' \<in> set msgs)"
  using zero_total_ratio [of 0 0 "[(''x.c'', empty_coverage)]" "''out/lcov.info''"]
  by (auto simp: total_of_def covered_of_def empty_coverage_def count_covered_def)

subsection \<open>Dictionaries\<close>

lemma set_update_subset: "set (AList.update k v al) \<subseteq> insert (k, v) (set al)"
  by (induction al) auto

lemma map_of_store_max:
  "map_of (store_max d k c) = (map_of d)(k \<mapsto> max (dict_get d k 0) c)"
  by (simp add: store_max_def update_conv')

lemma nonneg_store_max: "nonneg_dict d \<Longrightarrow> nonneg_dict (store_max d k c)"
proof -
  assume d: "nonneg_dict d"
  have ge: "0 \<le> max (dict_get d k 0) c"
    using d by (auto simp: dict_get_def nonneg_dict_def split: option.splits dest!: map_of_SomeD)
  show ?thesis
    using d ge set_update_subset [of k "max (dict_get d k 0) c" d]
    by (auto simp: nonneg_dict_def store_max_def distinct_update)
qed

lemma nonneg_merge_counts: "nonneg_dict acc \<Longrightarrow> nonneg_dict (merge_counts acc xs)"
  by (induction xs arbitrary: acc) (auto simp: nonneg_store_max)

lemma map_of_merge_counts:
  "nonneg_dict xs \<Longrightarrow>
   map_of (merge_counts acc xs) k = combine_options max (map_of acc k) (map_of xs k)"
proof (induction xs arbitrary: acc)
  case Nil
  then show ?case by simp
next
  case (Cons item rest)
  have rest: "nonneg_dict rest" and fresh: "fst item \<notin> fst ` set rest" and ge: "0 \<le> snd item"
    using Cons.prems by (auto simp: nonneg_dict_def)
  show ?case
  proof (cases "k = fst item")
    case True
    then have "map_of rest k = None" using fresh by (simp add: map_of_eq_None_iff)
    then show ?thesis
      using Cons.IH [OF rest, of "store_max acc (fst item) (snd item)"] True ge
      by (cases item) (auto simp: map_of_store_max dict_get_def split: option.splits)
  next
    case False
    then show ?thesis
      using Cons.IH [OF rest, of "store_max acc (fst item) (snd item)"]
      by (cases item) (auto simp: map_of_store_max)
  qed
qed

subsection \<open>The invariant of the parser\<close>

lemma wf_data_update:
  "wf_data d \<Longrightarrow> wf_coverage r \<Longrightarrow> wf_data (AList.update k r d)"
  using set_update_subset [of k r d]
  by (auto simp: wf_data_def distinct_update)

lemma wf_on_current:
  assumes "on_current st f = Inr st'" and "wf_data (fst st)"
    and "\<And>r. wf_coverage r \<Longrightarrow> wf_coverage (f r)"
  shows "wf_data (fst st')"
proof -
  from assms(1) obtain cf r where cf: "snd st = Some cf" "map_of (fst st) cf = Some r"
    and st': "st' = (AList.update cf (f r) (fst st), Some cf)"
    by (auto simp: on_current_def split: option.splits)
  from cf(2) have "(cf, r) \<in> set (fst st)" by (rule map_of_SomeD)
  then have "wf_coverage r" using assms(2) by (force simp: wf_data_def)
  then show ?thesis using assms(2,3) st' by (simp add: wf_data_update)
qed

lemma wf_empty_coverage: "wf_coverage empty_coverage"
  by (simp add: wf_coverage_def empty_coverage_def nonneg_dict_def)

lemma wf_data_new_file:
  "wf_data d \<Longrightarrow> k \<notin> keys d \<Longrightarrow> wf_data (d @ [(k, empty_coverage)])"
  by (auto simp: wf_data_def keys_def wf_empty_coverage)

lemma wf_parse_line:
  assumes "wf_data (fst st)" and "parse_line st raw = Inr st'"
  shows "wf_data (fst st')"
proof -
  have fn: "\<And>x r. wf_coverage r \<Longrightarrow> wf_coverage (r\<lparr>function_data := x r\<rparr>)"
    and br: "\<And>x r. wf_coverage r \<Longrightarrow> wf_coverage (r\<lparr>branch_data := x r\<rparr>)"
    and f1: "\<And>k c r. wf_coverage r \<Longrightarrow> wf_coverage (r\<lparr>functions_tab := store_max (functions_tab r) k c\<rparr>)"
    and f2: "\<And>k c r. wf_coverage r \<Longrightarrow> wf_coverage (r\<lparr>lines := store_max (lines r) k c\<rparr>)"
    and f3: "\<And>k c r. wf_coverage r \<Longrightarrow> wf_coverage (r\<lparr>branches := store_max (branches r) k c\<rparr>)"
    by (simp_all add: wf_coverage_def nonneg_store_max)
  note steps = wf_on_current [OF _ _ fn] wf_on_current [OF _ _ br]
    wf_on_current [OF _ _ f1] wf_on_current [OF _ _ f2] wf_on_current [OF _ _ f3]
  show ?thesis
    using assms
    unfolding parse_line_def Let_def
    by (auto simp: wf_data_new_file split: if_splits sum.splits dest!: steps)
qed

lemma wf_parse_lines:
  "wf_data (fst st) \<Longrightarrow> parse_lines st ls = Inr st' \<Longrightarrow> wf_data (fst st')"
  by (induction ls arbitrary: st) (auto split: sum.splits dest: wf_parse_line)

lemma wf_parse_lcov_file: "wf_data (fst (parse_lcov_file fs p))"
  using wf_parse_lines [of "([], None)"]
  by (auto simp: parse_lcov_file_def wf_data_def split: file_status.splits sum.splits)

subsection \<open>The merge takes the maximum\<close>

lemma map_of_merge_source:
  "map_of (merge_source m sf data) =
     (map_of m)(sf \<mapsto>
        (let r = (case map_of m sf of
                    None \<Rightarrow> \<lparr>functions_tab = [], lines = [], branches = [],
                              function_data = function_data data,
                              branch_data = branch_data data\<rparr>
                  | Some r \<Rightarrow> r)
         in r\<lparr>functions_tab := merge_counts (functions_tab r) (functions_tab data),
              lines := merge_counts (lines r) (lines data),
              branches := merge_counts (branches r) (branches data)\<rparr>))"
proof (cases "sf \<in> keys m")
  case True
  then obtain r where "map_of m sf = Some r"
    using map_of_eq_None_iff [of m sf] by (auto simp: keys_def)
  then show ?thesis
    using True by (auto simp: merge_source_def Let_def map_of_map_entry fun_eq_iff)
next
  case False
  then have "map_of m sf = None" by (simp add: keys_def map_of_eq_None_iff)
  then show ?thesis
    using False
    by (auto simp: merge_source_def Let_def map_of_map_entry fun_eq_iff map_add_def
             split: option.splits)
qed

lemma count_at_merge_source:
  assumes "wf_coverage data"
  shows "count_at functions_tab (merge_source m sf data) sf' k1 =
           (if sf' = sf
            then combine_options max (count_at functions_tab m sf k1) (map_of (functions_tab data) k1)
            else count_at functions_tab m sf' k1)"
    and "count_at lines (merge_source m sf data) sf' k2 =
           (if sf' = sf
            then combine_options max (count_at lines m sf k2) (map_of (lines data) k2)
            else count_at lines m sf' k2)"
    and "count_at branches (merge_source m sf data) sf' k3 =
           (if sf' = sf
            then combine_options max (count_at branches m sf k3) (map_of (branches data) k3)
            else count_at branches m sf' k3)"
  using assms
  by (auto simp: count_at_def map_of_merge_source map_of_merge_counts wf_coverage_def Let_def
           split: option.splits)

lemma count_at_merge_file_data:
  assumes step: "\<And>m sf data sf' k. wf_coverage data \<Longrightarrow>
             count_at fld (merge_source m sf data) sf' k =
               (if sf' = sf
                then combine_options max (count_at fld m sf k) (map_of (fld data) k)
                else count_at fld m sf' k)"
  shows "wf_data d \<Longrightarrow>
         count_at fld (merge_file_data m d) sf k =
           combine_options max (count_at fld m sf k) (count_at fld d sf k)"
proof (induction d arbitrary: m)
  case Nil
  then show ?case by (simp add: count_at_def)
next
  case (Cons item rest)
  have rest: "wf_data rest" and fresh: "fst item \<notin> fst ` set rest" and wf: "wf_coverage (snd item)"
    using Cons.prems by (auto simp: wf_data_def)
  show ?case
  proof (cases "sf = fst item")
    case True
    then have "map_of rest sf = None" using fresh by (simp add: map_of_eq_None_iff)
    then show ?thesis
      using Cons.IH [OF rest, of "merge_source m (fst item) (snd item)"] True step [OF wf]
      by (cases item) (simp add: count_at_def)
  next
    case False
    then show ?thesis
      using Cons.IH [OF rest, of "merge_source m (fst item) (snd item)"] step [OF wf]
      by (cases item) (simp add: count_at_def)
  qed
qed

lemma max_observed_Cons:
  "max_observed (c # cs) = combine_options max (Some c) (max_observed cs)"
  by (simp add: max_observed_def)

lemma count_at_merge_loop:
  assumes step: "\<And>m sf data sf' k. wf_coverage data \<Longrightarrow>
             count_at fld (merge_source m sf data) sf' k =
               (if sf' = sf
                then combine_options max (count_at fld m sf k) (map_of (fld data) k)
                else count_at fld m sf' k)"
  shows "count_at fld (fst (merge_loop fs acc ps)) sf k =
           combine_options max (count_at fld (fst acc) sf k)
             (max_observed (observed fld (parsed_inputs fs ps) sf k))"
proof (induction ps arbitrary: acc)
  case Nil
  then show ?case by (simp add: parsed_inputs_def observed_def max_observed_def)
next
  case (Cons p ps)
  show ?case
  proof (cases "fs p = Missing")
    case True
    then show ?thesis
      using Cons.IH [of "(fst acc, snd acc @ [Warning_not_found p])"]
      by (simp add: parsed_inputs_def)
  next
    case False
    let ?d = "fst (parse_lcov_file fs p)"
    have obs: "max_observed (observed fld (parsed_inputs fs (p # ps)) sf k) =
               combine_options max (count_at fld ?d sf k)
                 (max_observed (observed fld (parsed_inputs fs ps) sf k))"
      using False
      by (cases "count_at fld ?d sf k")
         (simp_all add: parsed_inputs_def observed_def max_observed_Cons)
    show ?thesis
      using False
        Cons.IH [of "(merge_file_data (fst acc) ?d, snd acc @ [Processing p] @ snd (parse_lcov_file fs p))"]
        count_at_merge_file_data [of fld ?d "fst acc" sf k, OF step wf_parse_lcov_file]
      by (simp add: Let_def obs combine_options_assoc max.assoc)
  qed
qed

lemma merged_counts:
  "count_at functions_tab (fst (merge_coverage_files fs ps)) sf k1 =
     max_observed (observed functions_tab (parsed_inputs fs ps) sf k1)"
  "count_at lines (fst (merge_coverage_files fs ps)) sf k2 =
     max_observed (observed lines (parsed_inputs fs ps) sf k2)"
  "count_at branches (fst (merge_coverage_files fs ps)) sf k3 =
     max_observed (observed branches (parsed_inputs fs ps) sf k3)"
proof -
  have empty: "\<And>(fld :: coverage \<Rightarrow> ('k, int) dict) k. count_at fld [] sf k = None"
    by (simp add: count_at_def)
  show "count_at functions_tab (fst (merge_coverage_files fs ps)) sf k1 =
     max_observed (observed functions_tab (parsed_inputs fs ps) sf k1)"
    unfolding merge_coverage_files_def
    by (subst count_at_merge_loop) (simp_all add: count_at_merge_source empty)
  show "count_at lines (fst (merge_coverage_files fs ps)) sf k2 =
     max_observed (observed lines (parsed_inputs fs ps) sf k2)"
    unfolding merge_coverage_files_def
    by (subst count_at_merge_loop) (simp_all add: count_at_merge_source empty)
  show "count_at branches (fst (merge_coverage_files fs ps)) sf k3 =
     max_observed (observed branches (parsed_inputs fs ps) sf k3)"
    unfolding merge_coverage_files_def
    by (subst count_at_merge_loop) (simp_all add: count_at_merge_source empty)
qed

lemma keys_merge_source: "keys (merge_source m sf data) = insert sf (keys m)"
  by (auto simp: merge_source_def Let_def keys_def dom_map_entry)

lemma keys_simps: "keys [] = {}" "keys (x # xs) = insert (fst x) (keys xs)"
  by (simp_all add: keys_def)

lemma keys_merge_file_data: "keys (merge_file_data m d) = keys m \<union> keys d"
  by (induction d arbitrary: m) (auto simp: keys_merge_source keys_simps)

lemma keys_merge_loop:
  "keys (fst (merge_loop fs acc ps)) = keys (fst acc) \<union> (\<Union>d \<in> set (parsed_inputs fs ps). keys d)"
  by (induction ps arbitrary: acc)
     (auto simp: parsed_inputs_def Let_def keys_merge_file_data keys_simps)

lemma set_parsed_inputs:
  "set (parsed_inputs fs ps) = (\<lambda>p. fst (parse_lcov_file fs p)) ` {p \<in> set ps. fs p \<noteq> Missing}"
  by (simp add: parsed_inputs_def)

lemma max_observed_cong:
  "set cs = set cs' \<Longrightarrow> max_observed cs = max_observed cs'"
  by (auto simp: max_observed_def)

lemma set_observed:
  "set (observed fld inputs sf k) = {c. \<exists>d \<in> set inputs. count_at fld d sf k = Some c}"
  by (induction inputs) (auto simp: observed_def split: option.splits)

text \<open>
  Claim C1. For every file system, list of input paths, source file and key of a
  counter (function name, line number, branch key), the merged count is the maximum
  of the counts that the parsed inputs hold for this key (and there is none exactly
  when no input has the key): never their sum. In the end-to-end scenario (input A:
  \<open>SF:x.c\<close>, \<open>DA:1,5\<close>, \<open>DA:2,0\<close>; input B: \<open>SF:x.c\<close>, \<open>DA:1,2\<close>, \<open>DA:3,4\<close>)
  the written block of \<open>x.c\<close> contains \<open>DA:1,5\<close>, \<open>DA:2,0\<close>, \<open>DA:3,4\<close>, \<open>LF:3\<close> and
  \<open>LH:2\<close>, and no line with the sum \<open>7\<close> for line 1.
\<close>

theorem merged_count_is_maximum:
  "count_at functions_tab (fst (merge_coverage_files fs file_paths)) source_file func_name =
     max_observed (observed functions_tab (parsed_inputs fs file_paths) source_file func_name)
   \<and> count_at lines (fst (merge_coverage_files fs file_paths)) source_file line_num =
     max_observed (observed lines (parsed_inputs fs file_paths) source_file line_num)
   \<and> count_at branches (fst (merge_coverage_files fs file_paths)) source_file branch_key =
     max_observed (observed branches (parsed_inputs fs file_paths) source_file branch_key)
   \<and> (let fs0 = (\<lambda>p. if p = ''A'' then Readable [''SF:x.c'', ''DA:1,5'', ''DA:2,0'']
                      else if p = ''B'' then Readable [''SF:x.c'', ''DA:1,2'', ''DA:3,4'']
                      else Missing);
           out = write_records [] (fst (merge_coverage_files fs0 [''A'', ''B'']))
       in ''SF:x.c'' \<in> set out \<and> ''DA:1,5'' \<in> set out \<and> ''DA:2,0'' \<in> set out
          \<and> ''DA:3,4'' \<in> set out \<and> ''LF:3'' \<in> set out \<and> ''LH:2'' \<in> set out
          \<and> ''DA:1,7'' \<notin> set out \<and> length out = 12)"
proof (intro conjI)
  show "let fs0 = (\<lambda>p. if p = ''A'' then Readable [''SF:x.c'', ''DA:1,5'', ''DA:2,0'']
                      else if p = ''B'' then Readable [''SF:x.c'', ''DA:1,2'', ''DA:3,4'']
                      else Missing);
           out = write_records [] (fst (merge_coverage_files fs0 [''A'', ''B'']))
       in ''SF:x.c'' \<in> set out \<and> ''DA:1,5'' \<in> set out \<and> ''DA:2,0'' \<in> set out
          \<and> ''DA:3,4'' \<in> set out \<and> ''LF:3'' \<in> set out \<and> ''LH:2'' \<in> set out
          \<and> ''DA:1,7'' \<notin> set out \<and> length out = 12"
    by code_simp
qed (simp_all add: merged_counts)

text \<open>Two inputs report line 10 of \<open>x.c\<close> with counts 3 and 7: the merged count is 7.\<close>

theorem merged_count_is_maximum_witness:
  "count_at lines
     (fst (merge_coverage_files
        (\<lambda>p. if p = ''a.info'' then Readable [''SF:x.c'', ''DA:10,3'']
              else if p = ''b.info'' then Readable [''SF:x.c'', ''DA:10,7'']
              else Missing)
        [''a.info'', ''b.info''])) ''x.c'' 10 = Some 7"
proof -
  let ?fs = "\<lambda>p. if p = ''a.info'' then Readable [''SF:x.c'', ''DA:10,3'']
              else if p = ''b.info'' then Readable [''SF:x.c'', ''DA:10,7'']
              else Missing"
  have "observed lines (parsed_inputs ?fs [''a.info'', ''b.info'']) ''x.c'' 10 = [3, 7]"
    by code_simp
  then show ?thesis
    using merged_count_is_maximum [of ?fs "[''a.info'', ''b.info'']" "''x.c''" "[]" 10 "[]"]
    by (simp add: max_observed_def)
qed

text \<open>
  Claim C2. Merging a permutation of the list of inputs gives, for every source file,
  the same function, line and branch counts, and the same set of source files.
\<close>

theorem merge_order_independent:
  assumes "mset file_paths' = mset file_paths"
  shows "count_at functions_tab (fst (merge_coverage_files fs file_paths')) source_file =
           count_at functions_tab (fst (merge_coverage_files fs file_paths)) source_file
       \<and> count_at lines (fst (merge_coverage_files fs file_paths')) source_file =
           count_at lines (fst (merge_coverage_files fs file_paths)) source_file
       \<and> count_at branches (fst (merge_coverage_files fs file_paths')) source_file =
           count_at branches (fst (merge_coverage_files fs file_paths)) source_file
       \<and> keys (fst (merge_coverage_files fs file_paths')) =
           keys (fst (merge_coverage_files fs file_paths))"
proof -
  from assms have "set file_paths' = set file_paths" by (rule mset_eq_setD)
  then have inputs: "set (parsed_inputs fs file_paths') = set (parsed_inputs fs file_paths)"
    by (simp add: set_parsed_inputs)
  have obs: "\<And>(fld :: coverage \<Rightarrow> ('k, int) dict) k.
      max_observed (observed fld (parsed_inputs fs file_paths') source_file k) =
      max_observed (observed fld (parsed_inputs fs file_paths) source_file k)"
    by (rule max_observed_cong) (simp add: set_observed inputs)
  have "keys (fst (merge_coverage_files fs file_paths')) =
        keys (fst (merge_coverage_files fs file_paths))"
    by (simp add: merge_coverage_files_def keys_merge_loop inputs)
  then show ?thesis
    by (simp add: fun_eq_iff merged_counts obs)
qed

text \<open>The two inputs of line 10 of \<open>x.c\<close>, in both orders.\<close>

theorem merge_order_independent_witness:
  "mset [''b.info'', ''a.info''] = mset [''a.info'', ''b.info'']
   \<and> count_at lines
       (fst (merge_coverage_files
          (\<lambda>p. if p = ''a.info'' then Readable [''SF:x.c'', ''DA:10,3'']
                else if p = ''b.info'' then Readable [''SF:x.c'', ''DA:10,7'']
                else Missing)
          [''b.info'', ''a.info''])) ''x.c'' =
     count_at lines
       (fst (merge_coverage_files
          (\<lambda>p. if p = ''a.info'' then Readable [''SF:x.c'', ''DA:10,3'']
                else if p = ''b.info'' then Readable [''SF:x.c'', ''DA:10,7'']
                else Missing)
          [''a.info'', ''b.info''])) ''x.c''"
proof -
  have p: "mset [''b.info'', ''a.info''] = mset [''a.info'', ''b.info'']" by simp
  show ?thesis
    using p merge_order_independent [OF p] by simp
qed

subsection \<open>The parser, line by line\<close>

lemma startswith_Nil: "startswith l []"
  by (simp add: startswith_def)

lemma startswith_Cons: "startswith l (c # p) \<longleftrightarrow> (\<exists>t. l = c # t \<and> startswith t p)"
  by (cases l) (auto simp: startswith_def)

lemma tag_DA:
  "startswith l ''DA:'' \<Longrightarrow>
     \<not> startswith l ''SF:'' \<and> \<not> startswith l ''FN:'' \<and> \<not> startswith l ''FNDA:''"
  by (auto simp: startswith_Cons)

lemma tag_FNDA:
  "startswith l ''FNDA:'' \<Longrightarrow> \<not> startswith l ''SF:'' \<and> \<not> startswith l ''FN:''"
  by (auto simp: startswith_Cons)

lemma tag_BRDA:
  "startswith l ''BRDA:'' \<Longrightarrow>
     \<not> startswith l ''SF:'' \<and> \<not> startswith l ''FN:'' \<and> \<not> startswith l ''FNDA:''
     \<and> \<not> startswith l ''DA:''"
  by (auto simp: startswith_Cons)

lemma parse_line_DA:
  "startswith (strip raw) ''DA:'' \<Longrightarrow>
   parse_line st raw =
     (if truthy (snd st) then
        (let parts = split_comma (strip raw) in
         if length parts = 2 then
           (case py_int (drop 3 (parts ! 0)) of
              Inl e \<Rightarrow> Inl e
            | Inr line_num \<Rightarrow>
                (case py_int (parts ! 1) of
                   Inl e \<Rightarrow> Inl e
                 | Inr cnt \<Rightarrow>
                     on_current st (\<lambda>r. r\<lparr>lines := store_max (lines r) line_num cnt\<rparr>)))
         else Inr st)
      else Inr st)"
  by (frule tag_DA) (auto simp: parse_line_def Let_def dest: tag_BRDA)

lemma parse_line_FNDA:
  "startswith (strip raw) ''FNDA:'' \<Longrightarrow>
   parse_line st raw =
     (if truthy (snd st) then
        (let parts = split_comma1 (strip raw) in
         if length parts = 2 then
           (case py_int (drop 5 (parts ! 0)) of
              Inl e \<Rightarrow> Inl e
            | Inr cnt \<Rightarrow>
                on_current st
                  (\<lambda>r. r\<lparr>functions_tab := store_max (functions_tab r) (parts ! 1) cnt\<rparr>))
         else Inr st)
      else Inr st)"
  by (frule tag_FNDA) (auto simp: parse_line_def Let_def dest: tag_BRDA tag_DA)

lemma parse_line_BRDA:
  "startswith (strip raw) ''BRDA:'' \<Longrightarrow>
   parse_line st raw =
     (if truthy (snd st) then
        (case on_current st (\<lambda>r. r\<lparr>branch_data := branch_data r @ [strip raw]\<rparr>) of
           Inl e \<Rightarrow> Inl e
         | Inr st1 \<Rightarrow>
             (let parts = split_comma (strip raw) in
              if length parts = 4 then
                (let key = drop 5 (parts ! 0) @ '':'' @ parts ! 1 @ '':'' @ parts ! 2 in
                 case (if parts ! 3 = ''-'' then Inr 0 else py_int (parts ! 3)) of
                   Inl e \<Rightarrow> Inl e
                 | Inr cnt \<Rightarrow>
                     on_current st1 (\<lambda>r. r\<lparr>branches := store_max (branches r) key cnt\<rparr>))
              else Inr st1))
      else Inr st)"
  by (frule tag_BRDA) (simp add: parse_line_def Let_def)




lemma parse_lines_skip:
  "parse_line st1 raw = Inr st1 \<Longrightarrow> parse_lines st1 (raw # post) = parse_lines st1 post"
  by simp


lemma on_current_Some:
  "snd st = Some cf \<Longrightarrow> map_of (fst st) cf = Some r \<Longrightarrow>
   on_current st f = Inr (AList.update cf (f r) (fst st), Some cf)"
  by (simp add: on_current_def)

lemma truthy_Some: "truthy (Some cf) \<longleftrightarrow> cf \<noteq> []"
  by (simp add: truthy_def)








lemma SF_existing:
  "source_file \<in> keys (fst st) \<Longrightarrow> strip raw = ''SF:'' @ source_file \<Longrightarrow>
   parse_line st raw = Inr (fst st, Some source_file)"
  by (simp add: parse_line_def startswith_def)

lemma update_existing_keys:
  "map_of d k = Some old \<Longrightarrow> map fst (AList.update k v d) = map fst d"
  by (auto simp: update_keys dest: map_of_SomeD intro: rev_image_eqI)

lemma store_max_existing:
  "map_of d k = Some old \<Longrightarrow> store_max d k c = AList.update k (max old c) d"
  by (simp add: store_max_def dict_get_def)

text \<open>
  Claim C3. An \<open>SF:\<close> marker for a path that is already in \<open>coverage_data\<close> only sets
  the current file: the mapping, and so the record of the path, stays as it is, and
  the lines that follow work on this record. An \<open>FNDA:\<close>, \<open>DA:\<close> or \<open>BRDA:\<close> line for a
  key that is already stored replaces its count by the maximum of the old and the new
  count, in place, so that the keys of the counter are the same as before. In every
  mapping that \<open>parse_lcov_file\<close> returns the source files are distinct and so are the
  keys of each counter.
\<close>

theorem repeated_marker_and_duplicates:
  "(source_file \<in> keys (fst st) \<and> strip raw = ''SF:'' @ source_file \<longrightarrow>
      parse_line st raw = Inr (fst st, Some source_file))
   \<and> (snd st = Some cf \<and> cf \<noteq> [] \<and> map_of (fst st) cf = Some r
       \<and> startswith (strip raw) ''DA:'' \<and> split_comma (strip raw) = [a, b]
       \<and> py_int (drop 3 a) = Inr line_num \<and> py_int b = Inr cnt
       \<and> map_of (lines r) line_num = Some old \<longrightarrow>
      parse_line st raw =
        Inr (AList.update cf (r\<lparr>lines := AList.update line_num (max old cnt) (lines r)\<rparr>)
               (fst st), Some cf)
      \<and> map fst (AList.update line_num (max old cnt) (lines r)) = map fst (lines r))
   \<and> (snd st = Some cf \<and> cf \<noteq> [] \<and> map_of (fst st) cf = Some r
       \<and> startswith (strip raw) ''FNDA:'' \<and> split_comma1 (strip raw) = [a, func_name]
       \<and> py_int (drop 5 a) = Inr cnt
       \<and> map_of (functions_tab r) func_name = Some old \<longrightarrow>
      parse_line st raw =
        Inr (AList.update cf
               (r\<lparr>functions_tab := AList.update func_name (max old cnt) (functions_tab r)\<rparr>)
               (fst st), Some cf)
      \<and> map fst (AList.update func_name (max old cnt) (functions_tab r)) =
          map fst (functions_tab r))
   \<and> (snd st = Some cf \<and> cf \<noteq> [] \<and> map_of (fst st) cf = Some r
       \<and> startswith (strip raw) ''BRDA:'' \<and> split_comma (strip raw) = [a, blk, br, c]
       \<and> (if c = ''-'' then Inr 0 else py_int c) = Inr cnt
       \<and> map_of (branches r) (drop 5 a @ '':'' @ blk @ '':'' @ br) = Some old \<longrightarrow>
      parse_line st raw =
        Inr (AList.update cf
               (r\<lparr>branch_data := branch_data r @ [strip raw],
                   branches := AList.update (drop 5 a @ '':'' @ blk @ '':'' @ br)
                                (max old cnt) (branches r)\<rparr>)
               (fst st), Some cf)
      \<and> map fst (AList.update (drop 5 a @ '':'' @ blk @ '':'' @ br) (max old cnt) (branches r)) =
          map fst (branches r))
   \<and> distinct (map fst (fst (parse_lcov_file fs file_path)))
   \<and> (\<forall>item \<in> set (fst (parse_lcov_file fs file_path)).
         distinct (map fst (functions_tab (snd item)))
         \<and> distinct (map fst (lines (snd item)))
         \<and> distinct (map fst (branches (snd item))))"
proof (intro conjI impI ballI)
  assume "source_file \<in> keys (fst st) \<and> strip raw = ''SF:'' @ source_file"
  then show "parse_line st raw = Inr (fst st, Some source_file)"
    by (simp add: SF_existing)
next
  assume h: "snd st = Some cf \<and> cf \<noteq> [] \<and> map_of (fst st) cf = Some r
       \<and> startswith (strip raw) ''DA:'' \<and> split_comma (strip raw) = [a, b]
       \<and> py_int (drop 3 a) = Inr line_num \<and> py_int b = Inr cnt
       \<and> map_of (lines r) line_num = Some old"
  then show "parse_line st raw =
        Inr (AList.update cf (r\<lparr>lines := AList.update line_num (max old cnt) (lines r)\<rparr>)
               (fst st), Some cf)"
    by (simp add: parse_line_DA truthy_Some on_current_Some store_max_existing)
  from h show "map fst (AList.update line_num (max old cnt) (lines r)) = map fst (lines r)"
    by (simp add: update_existing_keys)
next
  assume h: "snd st = Some cf \<and> cf \<noteq> [] \<and> map_of (fst st) cf = Some r
       \<and> startswith (strip raw) ''FNDA:'' \<and> split_comma1 (strip raw) = [a, func_name]
       \<and> py_int (drop 5 a) = Inr cnt
       \<and> map_of (functions_tab r) func_name = Some old"
  then show "parse_line st raw =
        Inr (AList.update cf
               (r\<lparr>functions_tab := AList.update func_name (max old cnt) (functions_tab r)\<rparr>)
               (fst st), Some cf)"
    by (simp add: parse_line_FNDA truthy_Some on_current_Some store_max_existing)
  from h show "map fst (AList.update func_name (max old cnt) (functions_tab r)) =
          map fst (functions_tab r)"
    by (simp add: update_existing_keys)
next
  assume h: "snd st = Some cf \<and> cf \<noteq> [] \<and> map_of (fst st) cf = Some r
       \<and> startswith (strip raw) ''BRDA:'' \<and> split_comma (strip raw) = [a, blk, br, c]
       \<and> (if c = ''-'' then Inr 0 else py_int c) = Inr cnt
       \<and> map_of (branches r) (drop 5 a @ '':'' @ blk @ '':'' @ br) = Some old"
  then show "parse_line st raw =
        Inr (AList.update cf
               (r\<lparr>branch_data := branch_data r @ [strip raw],
                   branches := AList.update (drop 5 a @ '':'' @ blk @ '':'' @ br)
                                (max old cnt) (branches r)\<rparr>)
               (fst st), Some cf)"
    by (cases "c = ''-''")
       (auto simp: parse_line_BRDA truthy_Some on_current_Some store_max_existing update_conv')
  from h show "map fst (AList.update (drop 5 a @ '':'' @ blk @ '':'' @ br) (max old cnt) (branches r)) =
          map fst (branches r)"
    by (simp add: update_existing_keys)
next
  show "distinct (map fst (fst (parse_lcov_file fs file_path)))"
    using wf_parse_lcov_file [of fs file_path] by (simp add: wf_data_def)
next
  fix item assume "item \<in> set (fst (parse_lcov_file fs file_path))"
  then have "wf_coverage (snd item)"
    using wf_parse_lcov_file [of fs file_path] by (simp add: wf_data_def)
  then show "distinct (map fst (functions_tab (snd item)))"
    and "distinct (map fst (lines (snd item)))"
    and "distinct (map fst (branches (snd item)))"
    by (simp_all add: wf_coverage_def nonneg_dict_def)
qed


text \<open>
  A second \<open>SF:x.c\<close>, then \<open>DA:1,9\<close> where line 1 has count 5: the count is 9, not 14.
  \<open>FNDA:7,foo\<close> over a count of 2 gives 7, \<open>BRDA:1,0,0,2\<close> over a count of 4 leaves 4.
\<close>

theorem repeated_marker_and_duplicates_witness:
  "''x.c'' \<in> keys [(''x.c'', empty_coverage\<lparr>lines := [(1, 5)]\<rparr>), (''y.c'', empty_coverage)]
   \<and> parse_line
        ([(''x.c'', empty_coverage\<lparr>lines := [(1, 5)]\<rparr>), (''y.c'', empty_coverage)],
         Some ''y.c'') ''SF:x.c'' =
       Inr ([(''x.c'', empty_coverage\<lparr>lines := [(1, 5)]\<rparr>), (''y.c'', empty_coverage)],
            Some ''x.c'')
   \<and> parse_line
        ([(''x.c'', empty_coverage\<lparr>lines := [(1, 5)]\<rparr>), (''y.c'', empty_coverage)],
         Some ''x.c'') ''DA:1,9'' =
       Inr ([(''x.c'', empty_coverage\<lparr>lines := [(1, 9)]\<rparr>), (''y.c'', empty_coverage)],
            Some ''x.c'')
   \<and> parse_line
        ([(''x.c'', empty_coverage\<lparr>functions_tab := [(''foo'', 2)]\<rparr>)], Some ''x.c'')
        ''FNDA:7,foo'' =
       Inr ([(''x.c'', empty_coverage\<lparr>functions_tab := [(''foo'', 7)]\<rparr>)], Some ''x.c'')
   \<and> parse_line
        ([(''x.c'', empty_coverage\<lparr>branches := [(''1:0:0'', 4)]\<rparr>)], Some ''x.c'')
        ''BRDA:1,0,0,2'' =
       Inr ([(''x.c'', empty_coverage\<lparr>branch_data := [''BRDA:1,0,0,2''],
                                       branches := [(''1:0:0'', 4)]\<rparr>)], Some ''x.c'')
   \<and> distinct (map fst (fst (parse_lcov_file
         (\<lambda>p. Readable [''SF:x.c'', ''DA:1,5'', ''SF:y.c'', ''SF:x.c'', ''DA:1,9''])
         ''in.info'')))"
proof -
  let ?d = "[(''x.c'', empty_coverage\<lparr>lines := [(1, 5)]\<rparr>), (''y.c'', empty_coverage)]"
  let ?rf = "empty_coverage\<lparr>functions_tab := [(''foo'', 2)]\<rparr>"
  let ?rb = "empty_coverage\<lparr>branches := [(''1:0:0'', 4)]\<rparr>"
  have k: "''x.c'' \<in> keys ?d" by (simp add: keys_def)
  have s1: "strip ''SF:x.c'' = ''SF:'' @ ''x.c''" by code_simp
  have s2: "startswith (strip ''DA:1,9'') ''DA:''" by code_simp
  have s3: "split_comma (strip ''DA:1,9'') = [''DA:1'', ''9'']" by code_simp
  have s4: "py_int (drop 3 ''DA:1'') = Inr 1" by code_simp
  have s5: "py_int ''9'' = Inr 9" by code_simp
  have f1: "startswith (strip ''FNDA:7,foo'') ''FNDA:''" by code_simp
  have f2: "split_comma1 (strip ''FNDA:7,foo'') = [''FNDA:7'', ''foo'']" by code_simp
  have f3: "py_int (drop 5 ''FNDA:7'') = Inr 7" by code_simp
  have b1: "startswith (strip ''BRDA:1,0,0,2'') ''BRDA:''" by code_simp
  have b2: "split_comma (strip ''BRDA:1,0,0,2'') = [''BRDA:1'', ''0'', ''0'', ''2'']" by code_simp
  have b3: "py_int ''2'' = Inr 2" by code_simp
  have b4: "strip ''BRDA:1,0,0,2'' = ''BRDA:1,0,0,2''" by code_simp
  show ?thesis
    using k s1 s2 s3 s4 s5 f1 f2 f3 b1 b2 b3
      repeated_marker_and_duplicates [where source_file = "''x.c''" and st = "(?d, Some ''y.c'')"
        and raw = "''SF:x.c''"]
      repeated_marker_and_duplicates [where st = "(?d, Some ''x.c'')" and raw = "''DA:1,9''"
        and cf = "''x.c''" and r = "empty_coverage\<lparr>lines := [(1, 5)]\<rparr>"
        and a = "''DA:1''" and b = "''9''" and line_num = 1 and cnt = 9 and old = 5]
      repeated_marker_and_duplicates [where st = "([(''x.c'', ?rf)], Some ''x.c'')"
        and raw = "''FNDA:7,foo''" and cf = "''x.c''" and r = ?rf
        and a = "''FNDA:7''" and func_name = "''foo''" and cnt = 7 and old = 2]
      repeated_marker_and_duplicates [where st = "([(''x.c'', ?rb)], Some ''x.c'')"
        and raw = "''BRDA:1,0,0,2''" and cf = "''x.c''" and r = ?rb
        and a = "''BRDA:1''" and blk = "''0''" and br = "''0''" and c = "''2''"
        and cnt = 2 and old = 4]
      repeated_marker_and_duplicates [where
        fs = "\<lambda>p. Readable [''SF:x.c'', ''DA:1,5'', ''SF:y.c'', ''SF:x.c'', ''DA:1,9'']"
        and file_path = "''in.info''"]
    by (simp add: empty_coverage_def b4)
qed

subsection \<open>The writer\<close>

lemma first_seen_filter: "first_seen (filter P xs) = filter P (first_seen xs)"
proof (induction xs rule: first_seen.induct)
  case 1
  then show ?case by simp
next
  case (2 x xs)
  note IH = "2.IH"
  show ?case
  proof (cases "P x")
    case True
    have "filter (\<lambda>y. y \<noteq> x) (filter P xs) = filter P (filter (\<lambda>y. y \<noteq> x) xs)"
      by (simp add: conj_commute)
    then show ?thesis using True IH by simp
  next
    case False
    then have "filter P xs = filter P (filter (\<lambda>y. y \<noteq> x) xs)"
      by (auto intro: filter_cong)
    then show ?thesis using False IH by simp
  qed
qed

lemma set_first_seen: "set (first_seen xs) = set xs"
  by (induction xs rule: first_seen.induct) auto

lemma distinct_first_seen: "distinct (first_seen xs)"
  by (induction xs rule: first_seen.induct) (auto simp: set_first_seen)

lemma first_seen_snoc:
  "first_seen (xs @ [x]) = (if x \<in> set xs then first_seen xs else first_seen xs @ [x])"
  by (induction xs rule: first_seen.induct) auto

lemma write_dedup_eq:
  "write_dedup f seen xs = f @ first_seen (filter (\<lambda>l. l \<notin> seen) xs)"
proof (induction xs arbitrary: f seen)
  case Nil
  then show ?case by simp
next
  case (Cons l ls)
  have "filter (\<lambda>y. y \<noteq> l) (filter (\<lambda>l. l \<notin> seen) ls) = filter (\<lambda>y. y \<notin> insert l seen) ls"
    by (auto intro: filter_cong)
  with Cons show ?case by simp
qed

lemma fold_write: "fold (\<lambda>item f. f @ [g item]) d f = f @ map g d"
  by (induction d arbitrary: f) simp_all

lemma write_record_eq: "write_record f source_file data = f @ lcov_block source_file data"
  by (simp add: write_record_def lcov_block_def Let_def write_dedup_eq write_fnda_def
        write_da_def fold_write)

lemma write_records_eq:
  "write_records f merged_data =
     f @ concat (map (\<lambda>item. lcov_block (fst item) (snd item)) merged_data)"
  by (induction merged_data arbitrary: f) (simp_all add: write_record_eq)

lemma sorted_fst_sort: "sorted (map fst (sort (d :: (int \<times> int) list)))"
proof -
  have "sorted (sort d)" by simp
  then have "sorted_wrt (\<lambda>x y. fst x \<le> fst y) (sort d)"
    by (rule sorted_wrt_mono_rel [rotated]) (auto simp: less_eq_prod_def)
  then show ?thesis by (simp add: sorted_map)
qed

lemma length_eq_card_keys: "distinct (map fst d) \<Longrightarrow> length d = card (keys d)"
  by (simp add: keys_def distinct_card [symmetric] del: set_map) (metis distinct_card length_map list.set_map)

lemma count_covered_eq_card:
  "distinct (map fst d) \<Longrightarrow>
   count_covered d = card {k. \<exists>c. map_of d k = Some c \<and> 0 < c}"
proof (induction d)
  case Nil
  then show ?case by (simp add: count_covered_def)
next
  case (Cons x d)
  obtain k c where x: "x = (k, c)" by (cases x)
  have fresh: "map_of d k = None" using Cons.prems x by (simp add: map_of_eq_None_iff)
  have fin: "finite {k. \<exists>c. map_of d k = Some c \<and> 0 < c}"
    by (rule finite_subset [of _ "dom (map_of d)"]) (auto simp: finite_dom_map_of)
  have set_eq: "{k'. \<exists>c'. map_of (x # d) k' = Some c' \<and> 0 < c'} =
        (if 0 < c then insert k {k. \<exists>c. map_of d k = Some c \<and> 0 < c}
         else {k. \<exists>c. map_of d k = Some c \<and> 0 < c})"
    using fresh x by auto
  have notin: "k \<notin> {k. \<exists>c. map_of d k = Some c \<and> 0 < c}" using fresh by simp
  show ?case
    using Cons x fin notin unfolding set_eq
    by (simp add: count_covered_def)
qed


lemma summary_line_ignored:
  assumes "\<exists>tag \<in> set [''TN:'', ''FNF:'', ''FNH:'', ''BRF:'', ''BRH:'', ''LF:'', ''LH:'',
                         ''end_of_record'']. startswith (strip raw) tag"
  shows "parse_line st raw = Inr st"
  using assms by (auto simp: parse_line_def startswith_Cons)

lemma length_delete_present:
  "distinct (map fst d) \<Longrightarrow> map_of d k = Some v \<Longrightarrow>
   length d = Suc (length (AList.delete k d))"
proof (induction d)
  case Nil
  then show ?case by simp
next
  case (Cons x d)
  show ?case
  proof (cases "fst x = k")
    case True
    then have "k \<notin> fst ` set d" using Cons.prems(1) by auto
    then show ?thesis using True by (simp add: delete_id)
  next
    case False
    then show ?thesis using Cons by (cases x) auto
  qed
qed

lemma count_covered_delete_zero:
  "distinct (map fst d) \<Longrightarrow> map_of d k = Some 0 \<Longrightarrow>
   count_covered (AList.delete k d) = count_covered d"
proof (induction d)
  case Nil
  then show ?case by simp
next
  case (Cons x d)
  show ?case
  proof (cases "fst x = k")
    case True
    then have "k \<notin> fst ` set d" using Cons.prems(1) by auto
    then show ?thesis using True Cons.prems(2) by (cases x) (simp add: delete_id count_covered_def)
  next
    case False
    then show ?thesis using Cons by (cases x) (auto simp: count_covered_def)
  qed
qed

lemma map_of_store_max_same:
  "map_of (store_max d k c) k = Some (case map_of d k of None \<Rightarrow> max 0 c | Some old \<Rightarrow> max old c)"
  by (simp add: map_of_store_max dict_get_def split: option.splits)

text \<open>
  Claim C6. The written file is the concatenation, in the order of the aggregate, of
  one block per source file, and each block is \<open>lcov_block\<close>: \<open>TN:\<close>, \<open>SF:\<close>, the
  function definitions, the \<open>FNDA\<close> lines, \<open>FNF\<close>, \<open>FNH\<close>, the branch definitions,
  \<open>BRF\<close>, \<open>BRH\<close>, the \<open>DA\<close> lines, \<open>LF\<close>, \<open>LH\<close>, \<open>end_of_record\<close>. The \<open>DA\<close> lines are
  the line counts, each once, ascending by line number. Over a counter with unique
  keys the totals are the number of distinct keys and the number of keys with a count
  above zero. The parser ignores the summary lines of its input (and \<open>TN:\<close> and
  \<open>end_of_record\<close>), so no summary of an input can reach the output.
\<close>

theorem serialization_layout:
  "write_records [] merged_data =
     concat (map (\<lambda>item. lcov_block (fst item) (snd item)) merged_data)
   \<and> (dirname output_path \<noteq> [] \<and> makedirs_ok env (dirname output_path)
       \<and> open_w_ok env output_path \<longrightarrow>
        write_merged_lcov env merged_data output_path =
          Inr (output_path,
               concat (map (\<lambda>item. lcov_block (fst item) (snd item)) merged_data)))
   \<and> sorted (map fst (sort (lines data))) \<and> mset (sort (lines data)) = mset (lines data)
   \<and> (distinct (map fst d) \<longrightarrow>
        length d = card (keys d)
        \<and> count_covered d = card {k. \<exists>c. map_of d k = Some c \<and> 0 < c})
   \<and> ((\<exists>tag \<in> set [''TN:'', ''FNF:'', ''FNH:'', ''BRF:'', ''BRH:'', ''LF:'', ''LH:'',
                     ''end_of_record'']. startswith (strip raw) tag) \<longrightarrow>
        parse_line st raw = Inr st)"
  using summary_line_ignored [of raw st]
  by (simp add: write_records_eq write_merged_lcov_def os_makedirs_def sorted_fst_sort
        length_eq_card_keys count_covered_eq_card)

text \<open>
  Claim C5. A \<open>BRDA:\<close> line with four fields whose count is \<open>-\<close> stores for its key
  \<open>line:block:branch\<close> the maximum of the stored count and 0, which is 0 for a new
  key. A branch key with count 0 is counted in the \<open>BRF\<close> line of the block and not in
  its \<open>BRH\<close> line: without the key the total is one less and the covered count is the
  same.
\<close>

theorem placeholder_branch_count:
  "(snd st = Some cf \<and> cf \<noteq> [] \<and> map_of (fst st) cf = Some r
      \<and> startswith (strip raw) ''BRDA:'' \<and> split_comma (strip raw) = [a, blk, br, ''-''] \<longrightarrow>
      parse_line st raw =
        Inr (AList.update cf
               (r\<lparr>branch_data := branch_data r @ [strip raw],
                   branches := store_max (branches r) (drop 5 a @ '':'' @ blk @ '':'' @ br) 0\<rparr>)
               (fst st), Some cf))
   \<and> map_of (store_max d key 0) key =
       Some (case map_of d key of None \<Rightarrow> 0 | Some old \<Rightarrow> max old 0)
   \<and> (distinct (map fst (branches data)) \<and> map_of (branches data) key = Some 0 \<longrightarrow>
        ''BRF:'' @ show_int (int (length (branches data)))
          \<in> set (write_record f source_file data)
        \<and> ''BRH:'' @ show_int (int (count_covered (branches data)))
          \<in> set (write_record f source_file data)
        \<and> length (branches data) = Suc (length (AList.delete key (branches data)))
        \<and> count_covered (branches data) = count_covered (AList.delete key (branches data)))"
proof (intro conjI impI)
  assume "snd st = Some cf \<and> cf \<noteq> [] \<and> map_of (fst st) cf = Some r
      \<and> startswith (strip raw) ''BRDA:'' \<and> split_comma (strip raw) = [a, blk, br, ''-'']"
  then show "parse_line st raw =
        Inr (AList.update cf
               (r\<lparr>branch_data := branch_data r @ [strip raw],
                   branches := store_max (branches r) (drop 5 a @ '':'' @ blk @ '':'' @ br) 0\<rparr>)
               (fst st), Some cf)"
    by (simp add: parse_line_BRDA truthy_Some on_current_Some update_conv')
next
  show "map_of (store_max d key 0) key =
       Some (case map_of d key of None \<Rightarrow> 0 | Some old \<Rightarrow> max old 0)"
    by (simp add: map_of_store_max_same)
next
  assume h: "distinct (map fst (branches data)) \<and> map_of (branches data) key = Some 0"
  show "''BRF:'' @ show_int (int (length (branches data)))
          \<in> set (write_record f source_file data)"
    and "''BRH:'' @ show_int (int (count_covered (branches data)))
          \<in> set (write_record f source_file data)"
    by (simp_all add: write_record_eq lcov_block_def)
  from h show "length (branches data) = Suc (length (AList.delete key (branches data)))"
    by (simp add: length_delete_present)
  from h show "count_covered (branches data) = count_covered (AList.delete key (branches data))"
    by (simp add: count_covered_delete_zero)
qed


text \<open>
  Two source files, a duplicated definition, unsorted line counts; a file system that
  lets \<open>out/lcov.info\<close> be written; the line \<open>LF:99\<close>.
\<close>

theorem serialization_layout_witness:
  "write_records []
     [(''b.c'', empty_coverage\<lparr>lines := [(3, 1), (1, 0)], function_data := [''FN:1,f'', ''FN:1,f'']\<rparr>),
      (''a.c'', empty_coverage\<lparr>functions_tab := [(''f'', 2)]\<rparr>)] =
     [''TN:'', ''SF:b.c'', ''FN:1,f'', ''FNF:0'', ''FNH:0'', ''BRF:0'', ''BRH:0'',
      ''DA:1,0'', ''DA:3,1'', ''LF:2'', ''LH:1'', ''end_of_record'',
      ''TN:'', ''SF:a.c'', ''FNDA:2,f'', ''FNF:1'', ''FNH:1'', ''BRF:0'', ''BRH:0'',
      ''LF:0'', ''LH:0'', ''end_of_record'']
   \<and> write_merged_lcov
        \<lparr>file_system = (\<lambda>p. Missing), makedirs_ok = (\<lambda>d. d = ''out''),
         open_w_ok = (\<lambda>p. p = ''out/lcov.info'')\<rparr>
        [(''a.c'', empty_coverage\<lparr>functions_tab := [(''f'', 2)]\<rparr>)] ''out/lcov.info'' =
       Inr (''out/lcov.info'',
            [''TN:'', ''SF:a.c'', ''FNDA:2,f'', ''FNF:1'', ''FNH:1'', ''BRF:0'', ''BRH:0'',
             ''LF:0'', ''LH:0'', ''end_of_record''])
   \<and> distinct (map fst [(3 :: int, 1 :: int), (1, 0)])
   \<and> length [(3 :: int, 1 :: int), (1, 0)] = card (keys [(3 :: int, 1 :: int), (1, 0)])
   \<and> count_covered [(3 :: int, 1 :: int), (1, 0)] =
       card {k. \<exists>c. map_of [(3 :: int, 1 :: int), (1, 0)] k = Some c \<and> 0 < c}
   \<and> (\<exists>tag \<in> set [''TN:'', ''FNF:'', ''FNH:'', ''BRF:'', ''BRH:'', ''LF:'', ''LH:'',
                    ''end_of_record'']. startswith (strip ''LF:99'') tag)
   \<and> parse_line ([(''a.c'', empty_coverage)], Some ''a.c'') ''LF:99'' =
       Inr ([(''a.c'', empty_coverage)], Some ''a.c'')"
proof -
  let ?m = "[(''b.c'', empty_coverage\<lparr>lines := [(3, 1), (1, 0)], function_data := [''FN:1,f'', ''FN:1,f'']\<rparr>),
      (''a.c'', empty_coverage\<lparr>functions_tab := [(''f'', 2)]\<rparr>)]"
  let ?m1 = "[(''a.c'', empty_coverage\<lparr>functions_tab := [(''f'', 2)]\<rparr>)]"
  let ?env = "\<lparr>file_system = (\<lambda>p. Missing), makedirs_ok = (\<lambda>d. d = ''out''),
         open_w_ok = (\<lambda>p. p = ''out/lcov.info'')\<rparr>"
  let ?d = "[(3 :: int, 1 :: int), (1, 0)]"
  have blocks: "concat (map (\<lambda>item. lcov_block (fst item) (snd item)) ?m) =
     [''TN:'', ''SF:b.c'', ''FN:1,f'', ''FNF:0'', ''FNH:0'', ''BRF:0'', ''BRH:0'',
      ''DA:1,0'', ''DA:3,1'', ''LF:2'', ''LH:1'', ''end_of_record'',
      ''TN:'', ''SF:a.c'', ''FNDA:2,f'', ''FNF:1'', ''FNH:1'', ''BRF:0'', ''BRH:0'',
      ''LF:0'', ''LH:0'', ''end_of_record'']"
    by code_simp
  have blocks1: "concat (map (\<lambda>item. lcov_block (fst item) (snd item)) ?m1) =
     [''TN:'', ''SF:a.c'', ''FNDA:2,f'', ''FNF:1'', ''FNH:1'', ''BRF:0'', ''BRH:0'',
      ''LF:0'', ''LH:0'', ''end_of_record'']"
    by code_simp
  have io: "dirname ''out/lcov.info'' \<noteq> [] \<and> makedirs_ok ?env (dirname ''out/lcov.info'')
            \<and> open_w_ok ?env ''out/lcov.info''"
    by code_simp
  have dist: "distinct (map fst ?d)" by simp
  have tag: "\<exists>tag \<in> set [''TN:'', ''FNF:'', ''FNH:'', ''BRF:'', ''BRH:'', ''LF:'', ''LH:'',
                    ''end_of_record'']. startswith (strip ''LF:99'') tag"
    by code_simp
  note t = serialization_layout [where merged_data = ?m and raw = "''LF:99''"
        and st = "([(''a.c'', empty_coverage)], Some ''a.c'')" and d = ?d]
  note t1 = serialization_layout [where merged_data = ?m1 and env = ?env
        and output_path = "''out/lcov.info''"]
  show ?thesis
  proof (intro conjI)
    show "write_records [] ?m =
     [''TN:'', ''SF:b.c'', ''FN:1,f'', ''FNF:0'', ''FNH:0'', ''BRF:0'', ''BRH:0'',
      ''DA:1,0'', ''DA:3,1'', ''LF:2'', ''LH:1'', ''end_of_record'',
      ''TN:'', ''SF:a.c'', ''FNDA:2,f'', ''FNF:1'', ''FNH:1'', ''BRF:0'', ''BRH:0'',
      ''LF:0'', ''LH:0'', ''end_of_record'']"
      using t [THEN conjunct1] blocks by (rule trans)
    show "write_merged_lcov ?env ?m1 ''out/lcov.info'' =
       Inr (''out/lcov.info'',
            [''TN:'', ''SF:a.c'', ''FNDA:2,f'', ''FNF:1'', ''FNH:1'', ''BRF:0'', ''BRH:0'',
             ''LF:0'', ''LH:0'', ''end_of_record''])"
      using t1 [THEN conjunct2, THEN conjunct1, THEN mp, OF io] by (simp only: blocks1)
    show "distinct (map fst ?d)" by (rule dist)
    show "length ?d = card (keys ?d)"
      using t [THEN conjunct2, THEN conjunct2, THEN conjunct2, THEN conjunct2, THEN conjunct1,
               THEN mp, OF dist] by (rule conjunct1)
    show "count_covered ?d = card {k. \<exists>c. map_of ?d k = Some c \<and> 0 < c}"
      using t [THEN conjunct2, THEN conjunct2, THEN conjunct2, THEN conjunct2, THEN conjunct1,
               THEN mp, OF dist] by (rule conjunct2)
    show "\<exists>tag \<in> set [''TN:'', ''FNF:'', ''FNH:'', ''BRF:'', ''BRH:'', ''LF:'', ''LH:'',
                    ''end_of_record'']. startswith (strip ''LF:99'') tag"
      by (rule tag)
    show "parse_line ([(''a.c'', empty_coverage)], Some ''a.c'') ''LF:99'' =
       Inr ([(''a.c'', empty_coverage)], Some ''a.c'')"
      using t [THEN conjunct2, THEN conjunct2, THEN conjunct2, THEN conjunct2, THEN conjunct2]
        tag by (rule mp)
  qed
qed

text \<open>The line \<open>BRDA:7,0,1,-\<close>, and a block with one branch at 0 and one at 3.\<close>

theorem placeholder_branch_count_witness:
  "parse_line ([(''x.c'', empty_coverage)], Some ''x.c'') ''BRDA:7,0,1,-'' =
     Inr ([(''x.c'', empty_coverage\<lparr>branch_data := [''BRDA:7,0,1,-''],
                                     branches := [(''7:0:1'', 0)]\<rparr>)], Some ''x.c'')
   \<and> distinct (map fst [(''7:0:1'', 0 :: int), (''7:0:0'', 3)])
   \<and> map_of [(''7:0:1'', 0 :: int), (''7:0:0'', 3)] ''7:0:1'' = Some 0
   \<and> ''BRF:2'' \<in> set (write_record [] ''x.c''
        (empty_coverage\<lparr>branches := [(''7:0:1'', 0), (''7:0:0'', 3)]\<rparr>))
   \<and> ''BRH:1'' \<in> set (write_record [] ''x.c''
        (empty_coverage\<lparr>branches := [(''7:0:1'', 0), (''7:0:0'', 3)]\<rparr>))"
proof -
  let ?data = "empty_coverage\<lparr>branches := [(''7:0:1'', 0), (''7:0:0'', 3)]\<rparr>"
  have s1: "startswith (strip ''BRDA:7,0,1,-'') ''BRDA:''" by code_simp
  have s2: "split_comma (strip ''BRDA:7,0,1,-'') = [''BRDA:7'', ''0'', ''1'', ''-'']" by code_simp
  have s3: "strip ''BRDA:7,0,1,-'' = ''BRDA:7,0,1,-''" by code_simp
  have n1: "show_int (int (length (branches ?data))) = ''2''" by code_simp
  have n2: "show_int (int (count_covered (branches ?data))) = ''1''" by code_simp
  have d: "distinct (map fst (branches ?data)) \<and> map_of (branches ?data) ''7:0:1'' = Some 0"
    by (simp add: empty_coverage_def)
  show ?thesis
    using s1 s2 s3 d
      placeholder_branch_count [where st = "([(''x.c'', empty_coverage)], Some ''x.c'')"
        and raw = "''BRDA:7,0,1,-''" and cf = "''x.c''" and r = empty_coverage
        and a = "''BRDA:7''" and blk = "''0''" and br = "''1''"
        and data = ?data and key = "''7:0:1''" and f = "[]" and source_file = "''x.c''"]
    unfolding n1 n2
    by (simp add: empty_coverage_def store_max_def dict_get_def)
qed

subsection \<open>The definition lines of the aggregate come from the first input\<close>

lemma defs_of_None_iff: "defs_of d sf = None \<longleftrightarrow> sf \<notin> keys d"
  by (simp add: defs_of_def keys_def map_of_eq_None_iff)

lemma defs_of_merge_source:
  "defs_of (merge_source m sf data) sf' =
     (if sf' = sf
      then (case defs_of m sf of
              None \<Rightarrow> Some (function_data data, branch_data data)
            | Some x \<Rightarrow> Some x)
      else defs_of m sf')"
  by (auto simp: defs_of_def map_of_merge_source Let_def split: option.splits)

lemma defs_of_merge_file_data:
  "distinct (map fst d) \<Longrightarrow>
   defs_of (merge_file_data m d) sf =
     (case defs_of m sf of None \<Rightarrow> defs_of d sf | Some x \<Rightarrow> Some x)"
proof (induction d arbitrary: m)
  case Nil
  then show ?case by (simp add: defs_of_def split: option.splits)
next
  case (Cons item rest)
  have fresh: "fst item \<notin> fst ` set rest" and rest: "distinct (map fst rest)"
    using Cons.prems by auto
  show ?case
  proof (cases "sf = fst item")
    case True
    then have "defs_of rest sf = None" using fresh by (simp add: defs_of_None_iff keys_def)
    then show ?thesis
      using Cons.IH [OF rest, of "merge_source m (fst item) (snd item)"] True
      by (cases item)
         (auto simp: defs_of_merge_source defs_of_def [of "_ # _"] split: option.splits)
  next
    case False
    then show ?thesis
      using Cons.IH [OF rest, of "merge_source m (fst item) (snd item)"]
      by (cases item)
         (auto simp: defs_of_merge_source defs_of_def [of "_ # _"] defs_of_def [of rest]
               split: option.splits)
  qed
qed

lemma defs_of_merge_loop:
  "defs_of (fst (merge_loop fs acc ps)) sf =
     (case defs_of (fst acc) sf of
        Some x \<Rightarrow> Some x
      | None \<Rightarrow>
          (case List.find (\<lambda>d. sf \<in> keys d) (parsed_inputs fs ps) of
             None \<Rightarrow> None
           | Some d \<Rightarrow> defs_of d sf))"
proof (induction ps arbitrary: acc)
  case Nil
  then show ?case by (simp add: parsed_inputs_def split: option.splits)
next
  case (Cons p ps)
  show ?case
  proof (cases "fs p = Missing")
    case True
    then have "parsed_inputs fs (p # ps) = parsed_inputs fs ps"
      by (simp add: parsed_inputs_def)
    then show ?thesis
      using True Cons.IH [of "(fst acc, snd acc @ [Warning_not_found p])"]
      by (simp cong: option.case_cong)
  next
    case False
    let ?d = "fst (parse_lcov_file fs p)"
    have dist: "distinct (map fst ?d)"
      using wf_parse_lcov_file [of fs p] by (simp add: wf_data_def)
    have inputs: "parsed_inputs fs (p # ps) = ?d # parsed_inputs fs ps"
      using False by (simp add: parsed_inputs_def)
    show ?thesis
      using False
        Cons.IH [of "(merge_file_data (fst acc) ?d, snd acc @ [Processing p] @ snd (parse_lcov_file fs p))"]
        defs_of_None_iff [of ?d sf]
      by (auto simp: Let_def inputs defs_of_merge_file_data [OF dist] split: option.splits)
  qed
qed

subsection \<open>The definition lines keep their tags\<close>

lemma tagged_on_current:
  assumes "on_current st f = Inr st'" and "all_tagged (fst st)"
    and "\<And>r. tagged r \<Longrightarrow> tagged (f r)"
  shows "all_tagged (fst st')"
proof -
  from assms(1) obtain cf r where cf: "snd st = Some cf" "map_of (fst st) cf = Some r"
    and st': "st' = (AList.update cf (f r) (fst st), Some cf)"
    by (auto simp: on_current_def split: option.splits)
  from cf(2) have "(cf, r) \<in> set (fst st)" by (rule map_of_SomeD)
  then have "tagged r" using assms(2) by (force simp: all_tagged_def)
  then have "tagged (f r)" by (rule assms(3))
  then show ?thesis
    using assms(2) st' set_update_subset [of cf "f r" "fst st"]
    by (auto simp: all_tagged_def)
qed

lemma tagged_empty: "tagged empty_coverage"
  by (simp add: tagged_def empty_coverage_def)

lemma tagged_parse_line:
  assumes "all_tagged (fst st)" and "parse_line st raw = Inr st'"
  shows "all_tagged (fst st')"
proof -
  have f1: "\<And>k c r. tagged r \<Longrightarrow> tagged (r\<lparr>functions_tab := store_max (functions_tab r) k c\<rparr>)"
    and f2: "\<And>k c r. tagged r \<Longrightarrow> tagged (r\<lparr>lines := store_max (lines r) k c\<rparr>)"
    and f3: "\<And>k c r. tagged r \<Longrightarrow> tagged (r\<lparr>branches := store_max (branches r) k c\<rparr>)"
    by (simp_all add: tagged_def)
  show ?thesis
  proof (cases "startswith (strip raw) ''SF:''")
    case True
    then show ?thesis
      using assms
      by (auto simp: parse_line_def Let_def tagged_empty all_tagged_def split: if_splits)
  next
    case notSF: False
    show ?thesis
    proof (cases "startswith (strip raw) ''FN:'' \<and> truthy (snd st)")
      case True
      then have fn: "\<And>r. tagged r \<Longrightarrow> tagged (r\<lparr>function_data := function_data r @ [strip raw]\<rparr>)"
        by (simp add: tagged_def)
      show ?thesis
        using assms True notSF tagged_on_current [OF _ assms(1) fn]
        by (simp add: parse_line_def)
    next
      case notFN: False
      show ?thesis
      proof (cases "startswith (strip raw) ''BRDA:''")
        case True
        then have br: "\<And>r. tagged r \<Longrightarrow> tagged (r\<lparr>branch_data := branch_data r @ [strip raw]\<rparr>)"
          by (simp add: tagged_def)
        show ?thesis
          using assms(2) True assms(1)
          by (auto simp: parse_line_BRDA Let_def split: if_splits sum.splits
                dest!: tagged_on_current [OF _ _ br] tagged_on_current [OF _ _ f3])
      next
        case False
        then show ?thesis
          using assms notSF notFN
          by (auto simp: parse_line_def Let_def split: if_splits sum.splits
                dest!: tagged_on_current [OF _ _ f1] tagged_on_current [OF _ _ f2])
      qed
    qed
  qed
qed

lemma tagged_parse_lines:
  "all_tagged (fst st) \<Longrightarrow> parse_lines st ls = Inr st' \<Longrightarrow>
   all_tagged (fst st')"
  by (induction ls arbitrary: st) (auto split: sum.splits dest: tagged_parse_line)

lemma tagged_parse_lcov_file: "all_tagged (fst (parse_lcov_file fs p))"
  using tagged_parse_lines [of "([], None)"]
  by (auto simp: parse_lcov_file_def all_tagged_def split: file_status.splits sum.splits)


subsection \<open>The definition lines of a block\<close>

lemma count_list_filter: "P l \<Longrightarrow> count_list (filter P xs) l = count_list xs l"
  by (induction xs) auto

lemma count_list_distinct: "distinct xs \<Longrightarrow> x \<in> set xs \<Longrightarrow> count_list xs x = 1"
  by (induction xs) auto

lemma startswith_Cons_Cons: "startswith (a # s) (b # p) \<longleftrightarrow> a = b \<and> startswith s p"
  by (simp add: startswith_def)

lemma lcov_block_FN:
  assumes "tagged r"
  shows "filter (\<lambda>l. startswith l ''FN:'') (lcov_block sf r) = first_seen (function_data r)"
proof -
  have fn: "filter (\<lambda>l. startswith l ''FN:'') (first_seen (function_data r)) =
            first_seen (function_data r)"
    using assms by (intro filter_True) (simp add: set_first_seen tagged_def)
  have br: "filter (\<lambda>l. startswith l ''FN:'') (first_seen (branch_data r)) = []"
    using assms
    by (intro filter_False) (auto simp: set_first_seen tagged_def dest: tag_BRDA)
  show ?thesis
    by (simp add: lcov_block_def fn br startswith_Cons_Cons)
qed

lemma lcov_block_BRDA:
  assumes "tagged r"
  shows "filter (\<lambda>l. startswith l ''BRDA:'') (lcov_block sf r) = first_seen (branch_data r)"
proof -
  have br: "filter (\<lambda>l. startswith l ''BRDA:'') (first_seen (branch_data r)) =
            first_seen (branch_data r)"
    using assms by (intro filter_True) (simp add: set_first_seen tagged_def)
  have fn: "filter (\<lambda>l. startswith l ''BRDA:'') (first_seen (function_data r)) = []"
    using assms
    by (intro filter_False) (auto simp: set_first_seen tagged_def startswith_Cons)
  show ?thesis
    by (simp add: lcov_block_def fn br startswith_Cons_Cons)
qed

lemma lcov_block_count:
  assumes "tagged r" and "l \<in> set (function_data r) \<union> set (branch_data r)"
  shows "count_list (lcov_block sf r) l = 1"
proof -
  from assms(2) show ?thesis
  proof
    assume l: "l \<in> set (function_data r)"
    then have "startswith l ''FN:''" using assms(1) by (simp add: tagged_def)
    then have "count_list (lcov_block sf r) l =
               count_list (filter (\<lambda>l. startswith l ''FN:'') (lcov_block sf r)) l"
      by (simp add: count_list_filter)
    then show ?thesis
      using l by (simp add: lcov_block_FN [OF assms(1)] count_list_distinct
                    distinct_first_seen set_first_seen)
  next
    assume l: "l \<in> set (branch_data r)"
    then have "startswith l ''BRDA:''" using assms(1) by (simp add: tagged_def)
    then have "count_list (lcov_block sf r) l =
               count_list (filter (\<lambda>l. startswith l ''BRDA:'') (lcov_block sf r)) l"
      by (simp add: count_list_filter)
    then show ?thesis
      using l by (simp add: lcov_block_BRDA [OF assms(1)] count_list_distinct
                    distinct_first_seen set_first_seen)
  qed
qed

text \<open>
  Claim C7, as amended. The aggregate keeps for a source file the definition lists of
  the first processed input that contains the source file. In the block written for
  the source file the \<open>FN:\<close> lines are exactly these function definitions and the
  \<open>BRDA:\<close> lines exactly these branch definitions, deduplicated in first-seen order by
  equality of strings: each of them occurs exactly once in the block, however often it
  is repeated in that input or in later ones. A definition line that only later
  inputs have is not written.
\<close>

theorem definitions_written_once:
  assumes "map_of (fst (merge_coverage_files fs file_paths)) source_file = Some r"
  shows "\<exists>d r0. List.find (\<lambda>d. source_file \<in> keys d) (parsed_inputs fs file_paths) = Some d
           \<and> map_of d source_file = Some r0
           \<and> function_data r = function_data r0 \<and> branch_data r = branch_data r0
           \<and> write_record f source_file r = f @ lcov_block source_file r
           \<and> filter (\<lambda>l. startswith l ''FN:'') (lcov_block source_file r) =
               first_seen (function_data r0)
           \<and> filter (\<lambda>l. startswith l ''BRDA:'') (lcov_block source_file r) =
               first_seen (branch_data r0)
           \<and> distinct (first_seen (function_data r0))
           \<and> set (first_seen (function_data r0)) = set (function_data r0)
           \<and> distinct (first_seen (branch_data r0))
           \<and> set (first_seen (branch_data r0)) = set (branch_data r0)
           \<and> (\<forall>l \<in> set (function_data r0) \<union> set (branch_data r0).
                 count_list (lcov_block source_file r) l = 1)"
proof -
  have "defs_of (fst (merge_coverage_files fs file_paths)) source_file =
        Some (function_data r, branch_data r)"
    using assms by (simp add: defs_of_def)
  then have "(case List.find (\<lambda>d. source_file \<in> keys d) (parsed_inputs fs file_paths) of
               None \<Rightarrow> None | Some d \<Rightarrow> defs_of d source_file) =
             Some (function_data r, branch_data r)"
    by (simp add: merge_coverage_files_def defs_of_merge_loop defs_of_def [of "[]"])
  then obtain d r0 where d: "List.find (\<lambda>d. source_file \<in> keys d) (parsed_inputs fs file_paths) = Some d"
    and r0: "map_of d source_file = Some r0"
    and eq: "function_data r = function_data r0" "branch_data r = branch_data r0"
    by (auto simp: defs_of_def split: option.splits)
  from d have "d \<in> set (parsed_inputs fs file_paths)"
    by (auto simp: find_Some_iff)
  then obtain p where "d = fst (parse_lcov_file fs p)"
    by (auto simp: parsed_inputs_def)
  then have "all_tagged d" by (simp add: tagged_parse_lcov_file)
  moreover from r0 have "(source_file, r0) \<in> set d" by (rule map_of_SomeD)
  ultimately have "tagged r0" by (force simp: all_tagged_def)
  then have t: "tagged r" using eq by (simp add: tagged_def)
  have cnt: "\<forall>l \<in> set (function_data r0) \<union> set (branch_data r0).
                 count_list (lcov_block source_file r) l = 1"
    using lcov_block_count [OF t, of _ source_file] eq by auto
  show ?thesis
    using d r0 eq cnt lcov_block_FN [OF t, of source_file] lcov_block_BRDA [OF t, of source_file]
    by (simp add: write_record_eq distinct_first_seen set_first_seen)
qed

text \<open>
  Claim C7 as stated fails: \<open>FN:5,foo\<close> stands in the second and the third input, not
  in the first; all three have \<open>x.c\<close>, and the line is not written at all.
\<close>

theorem definitions_written_once_counterexample:
  "(let fs = (\<lambda>p. if p = ''a.info'' then Readable [''SF:x.c'', ''DA:1,1'']
                   else if p = ''b.info'' then Readable [''SF:x.c'', ''FN:5,foo'']
                   else if p = ''c.info'' then Readable [''SF:x.c'', ''FN:5,foo'']
                   else Missing)
    in map (\<lambda>d. map (\<lambda>item. function_data (snd item)) d)
         (parsed_inputs fs [''a.info'', ''b.info'', ''c.info'']) =
         [[[]], [[''FN:5,foo'']], [[''FN:5,foo'']]]
       \<and> count_list
           (write_records [] (fst (merge_coverage_files fs [''a.info'', ''b.info'', ''c.info''])))
           ''FN:5,foo'' = 0)"
  by code_simp

text \<open>\<open>FN:5,foo\<close> twice in the first input and once in the second: written once.\<close>

theorem definitions_written_once_witness:
  "map_of (fst (merge_coverage_files
       (\<lambda>p. if p = ''a.info'' then Readable [''SF:x.c'', ''FN:5,foo'', ''FN:9,bar'', ''FN:5,foo'']
             else if p = ''b.info'' then Readable [''SF:x.c'', ''FN:5,foo'', ''FN:7,baz'']
             else Missing)
       [''a.info'', ''b.info''])) ''x.c'' =
     Some (empty_coverage\<lparr>function_data := [''FN:5,foo'', ''FN:9,bar'', ''FN:5,foo'']\<rparr>)
   \<and> filter (\<lambda>l. startswith l ''FN:'')
        (lcov_block ''x.c''
           (empty_coverage\<lparr>function_data := [''FN:5,foo'', ''FN:9,bar'', ''FN:5,foo'']\<rparr>)) =
      [''FN:5,foo'', ''FN:9,bar'']
   \<and> count_list
        (lcov_block ''x.c''
           (empty_coverage\<lparr>function_data := [''FN:5,foo'', ''FN:9,bar'', ''FN:5,foo'']\<rparr>))
        ''FN:5,foo'' = 1"
proof -
  let ?fs = "\<lambda>p. if p = ''a.info'' then Readable [''SF:x.c'', ''FN:5,foo'', ''FN:9,bar'', ''FN:5,foo'']
             else if p = ''b.info'' then Readable [''SF:x.c'', ''FN:5,foo'', ''FN:7,baz'']
             else Missing"
  let ?r = "empty_coverage\<lparr>function_data := [''FN:5,foo'', ''FN:9,bar'', ''FN:5,foo'']\<rparr>"
  have m: "map_of (fst (merge_coverage_files ?fs [''a.info'', ''b.info''])) ''x.c'' = Some ?r"
    by code_simp
  have fd: "function_data ?r = [''FN:5,foo'', ''FN:9,bar'', ''FN:5,foo'']"
    by (simp add: empty_coverage_def)
  note w = definitions_written_once [OF m, of "[]"]
  have "filter (\<lambda>l. startswith l ''FN:'') (lcov_block ''x.c'' ?r) =
          first_seen (function_data ?r)"
    using w by (elim exE conjE) simp
  then have 1: "filter (\<lambda>l. startswith l ''FN:'') (lcov_block ''x.c'' ?r) =
          [''FN:5,foo'', ''FN:9,bar'']"
    by (simp add: fd)
  have "\<forall>l \<in> set (function_data ?r). count_list (lcov_block ''x.c'' ?r) l = 1"
    using w by (elim exE conjE) simp
  then have 2: "count_list (lcov_block ''x.c'' ?r) ''FN:5,foo'' = 1"
    by (simp add: fd)
  show ?thesis using m 1 2 by (intro conjI)
qed

subsection \<open>The run of the program\<close>

lemma print_summary_ok: "\<exists>msgs. print_summary merged_data output = Inr msgs"
  by (simp add: print_summary_def percentage_eq Let_def)

lemma main_no_data:
  "fst (merge_coverage_files (file_system env) files) = [] \<Longrightarrow>
   main env files output =
     \<lparr>stdout = Merging (length files) # snd (merge_coverage_files (file_system env) files)
                @ [No_coverage_data],
      written = None, outcome = Exit 1\<rparr>"
  by (simp add: main_def Let_def)

lemma main_written:
  assumes "fst (merge_coverage_files (file_system env) files) \<noteq> []"
    and "dirname output \<noteq> []" and "makedirs_ok env (dirname output)"
    and "open_w_ok env output"
  shows "outcome (main env files output) = Exit 0
         \<and> written (main env files output) =
             Some (output, write_records [] (fst (merge_coverage_files (file_system env) files)))"
proof -
  obtain msgs where
    "print_summary (fst (merge_coverage_files (file_system env) files)) output = Inr msgs"
    using print_summary_ok by blast
  then show ?thesis
    using assms by (simp add: main_def Let_def write_merged_lcov_def os_makedirs_def)
qed

lemma merge_loop_no_input:
  "\<forall>p \<in> set ps. fs p = Missing \<or> fs p = Unreadable \<Longrightarrow>
   fst (merge_loop fs acc ps) = fst acc"
  by (induction ps arbitrary: acc) (auto simp: Let_def parse_lcov_file_def)

text \<open>
  Claim C9. With no coverage data the program prints the notice, writes nothing and
  exits with status 1 (\<open>main_no_data\<close>), and with data, an output path that has a
  directory part and a file system that lets it be created and written, the file is
  written and the program exits with 0 (\<open>main_written\<close>). With an output path that has
  no directory part the program fails: \<open>os.path.dirname\<close> gives the empty string,
  \<open>os.makedirs\<close> raises on it, nothing is written and the exception ends the run. The
  same input with the output path \<open>out/merged.info\<close> is written and exits with 0; an
  input path that does not exist gives status 1 and no file.
\<close>

theorem bare_output_name_not_written:
  "(let env = \<lparr>file_system = (\<lambda>p. if p = ''a.info'' then Readable [''SF:x.c'', ''DA:1,5'']
                                   else Missing),
               makedirs_ok = (\<lambda>d. True), open_w_ok = (\<lambda>p. True)\<rparr>
    in fst (merge_coverage_files (file_system env) [''a.info'']) \<noteq> []
       \<and> dirname ''merged.info'' = []
       \<and> main env [''a.info''] ''merged.info'' =
           \<lparr>stdout = [Merging 1, Processing ''a.info''], written = None,
            outcome = Uncaught OSError\<rparr>
       \<and> outcome (main env [''a.info''] ''out/merged.info'') = Exit 0
       \<and> written (main env [''a.info''] ''out/merged.info'') =
           Some (''out/merged.info'',
                 [''TN:'', ''SF:x.c'', ''FNF:0'', ''FNH:0'', ''BRF:0'', ''BRH:0'', ''DA:1,5'',
                  ''LF:1'', ''LH:1'', ''end_of_record''])
       \<and> main env [''nowhere.info''] ''out/merged.info'' =
           \<lparr>stdout = [Merging 1, Warning_not_found ''nowhere.info'', No_coverage_data],
            written = None, outcome = Exit 1\<rparr>)"
proof -
  let ?fs = "\<lambda>p. if p = ''a.info'' then Readable [''SF:x.c'', ''DA:1,5''] else Missing"
  let ?env = "\<lparr>file_system = ?fs, makedirs_ok = (\<lambda>d. True), open_w_ok = (\<lambda>p. True)\<rparr>"
  let ?m = "[(''x.c'', empty_coverage\<lparr>lines := [(1, 5)]\<rparr>)]"
  have m: "merge_coverage_files ?fs [''a.info''] = (?m, [Processing ''a.info''])"
    by code_simp
  have n: "merge_coverage_files ?fs [''nowhere.info''] = ([], [Warning_not_found ''nowhere.info''])"
    by code_simp
  have d1: "dirname ''merged.info'' = []" by code_simp
  have d2: "dirname ''out/merged.info'' = ''out''" by code_simp
  have w: "write_record [] ''x.c'' (empty_coverage\<lparr>lines := [(1, 5)]\<rparr>) =
             [''TN:'', ''SF:x.c'', ''FNF:0'', ''FNH:0'', ''BRF:0'', ''BRH:0'', ''DA:1,5'',
              ''LF:1'', ''LH:1'', ''end_of_record'']"
    by code_simp
  have a: "fst (merge_coverage_files (file_system ?env) [''a.info'']) \<noteq> []"
    by (simp add: m)
  have b: "main ?env [''a.info''] ''merged.info'' =
           \<lparr>stdout = [Merging 1, Processing ''a.info''], written = None,
            outcome = Uncaught OSError\<rparr>"
    by (simp add: main_def Let_def m d1 write_merged_lcov_def os_makedirs_def)
  have c: "outcome (main ?env [''a.info''] ''out/merged.info'') = Exit 0
       \<and> written (main ?env [''a.info''] ''out/merged.info'') =
           Some (''out/merged.info'',
                 [''TN:'', ''SF:x.c'', ''FNF:0'', ''FNH:0'', ''BRF:0'', ''BRH:0'', ''DA:1,5'',
                  ''LF:1'', ''LH:1'', ''end_of_record''])"
    using main_written [of ?env "[''a.info'']" "''out/merged.info''"]
    by (simp add: m d2 w)
  have e: "main ?env [''nowhere.info''] ''out/merged.info'' =
           \<lparr>stdout = [Merging 1, Warning_not_found ''nowhere.info'', No_coverage_data],
            written = None, outcome = Exit 1\<rparr>"
    using main_no_data [of ?env "[''nowhere.info'']" "''out/merged.info''"]
    by (simp add: n)
  show ?thesis
    unfolding Let_def using a d1 b c e by (intro conjI) simp_all
qed

end
